theory Spec2Isabelle
  imports Complex_Main "HOL-Library.Word" "HOL-Library.Signed_Division" "HOL-Library.AList"
begin

section \<open>The EGL preview window of rpicam-apps (src/preview/egl\_preview.cpp)\<close>

text \<open>
  The class \<^verbatim>\<open>EglPreview\<close> is embedded as a record of its data members, its member
  functions as functions from a state to an optional exception and the next state.
  A C++ member \<^verbatim>\<open>name_\<close> is the field \<open>name\<close>; \<^verbatim>\<open>width_\<close> and \<^verbatim>\<open>height_\<close>, the size
  of the preview window, are \<open>preview_width\<close> and \<open>preview_height\<close> (they are read from
  the options of those names, and the frame description has a \<open>width\<close> and a \<open>height\<close>
  of its own). Function parameters are shortened where a field has their name.

  What EGL, OpenGL ES, the C library and the frame producer do is outside the program.
  Their answers to one call of \<^verbatim>\<open>Show\<close> are a record \<open>egl\<close>, and the calls the program
  makes to them are appended to a trace that is part of the state.
\<close>

subsection \<open>Data\<close>

text \<open>
  Names of GL objects are 32-bit; a \<^verbatim>\<open>size_t\<close> is only stored, so its width plays no
  part; an \<^verbatim>\<open>EGLImage\<close> is an opaque handle; the overlay is an array of bytes.
\<close>

type_synonym GLuint = "32 word"
type_synonym size_t = "64 word"
type_synonym EGLImage = nat
type_synonym pixels = "8 word list"

text \<open>\<^verbatim>\<open>float\<close> is read as a real number: rounding, infinities and NaN are not modelled.\<close>

type_synonym float = real

text \<open>
  Modelled from the spec: \<^verbatim>\<open>libcamera::ColorSpace\<close> and \<^verbatim>\<open>StreamInfo\<close> are declared in
  headers that are not part of the source. The three colour spaces the code compares
  with are constructors, every other value is \<open>OtherColorSpace\<close>; the optional is
  \<open>None\<close> for an unspecified colour space. A stream has a width, a height and a stride,
  all \<^verbatim>\<open>unsigned int\<close>, and its colour space.
\<close>

datatype ColorSpace = Sycc | Smpte170m | Rec709 | OtherColorSpace nat

record StreamInfo =
  width :: "32 word"
  height :: "32 word"
  stride :: "32 word"
  colour_space :: "ColorSpace option"

text \<open>
  An \<^verbatim>\<open>EGLint\<close> of an attribute list: a number, or one of the named constants of the
  EGL and DRM headers, which stay symbolic. An attribute list is the list of its
  (name, value) pairs; the closing \<^verbatim>\<open>EGL_NONE\<close> is the end of the list.
\<close>

datatype EGLint =
    Val int
  | DRM_FORMAT_YUV420
  | EGL_ITU_REC601_EXT
  | EGL_ITU_REC709_EXT
  | EGL_YUV_NARROW_RANGE_EXT
  | EGL_YUV_FULL_RANGE_EXT

datatype EGLattrib =
    EGL_WIDTH
  | EGL_HEIGHT
  | EGL_LINUX_DRM_FOURCC_EXT
  | EGL_DMA_BUF_PLANE0_FD_EXT
  | EGL_DMA_BUF_PLANE0_OFFSET_EXT
  | EGL_DMA_BUF_PLANE0_PITCH_EXT
  | EGL_DMA_BUF_PLANE1_FD_EXT
  | EGL_DMA_BUF_PLANE1_OFFSET_EXT
  | EGL_DMA_BUF_PLANE1_PITCH_EXT
  | EGL_DMA_BUF_PLANE2_FD_EXT
  | EGL_DMA_BUF_PLANE2_OFFSET_EXT
  | EGL_DMA_BUF_PLANE2_PITCH_EXT
  | EGL_YUV_COLOR_SPACE_HINT_EXT
  | EGL_SAMPLE_RANGE_HINT_EXT

type_synonym attribs = "(EGLattrib \<times> EGLint) list"

text \<open>
  \<^verbatim>\<open>struct Buffer\<close>. Its constructor sets \<^verbatim>\<open>fd\<close> to -1 and leaves the other members
  unassigned: they are \<open>None\<close> until \<^verbatim>\<open>makeBuffer\<close> writes them.
\<close>

record Buffer =
  fd :: int
  size_bytes :: "size_t option"
  info :: "StreamInfo option"
  texture :: "GLuint option"

definition Buffer_default :: Buffer where
  "Buffer_default = \<lparr>fd = -1, size_bytes = None, info = None, texture = None\<rparr>"

datatype error = runtime_error string

datatype GLenum = GL_VERTEX_SHADER | GL_FRAGMENT_SHADER

text \<open>
  The calls to the outside that the trace records, with the values passed and returned.
  Calls that only configure the GL context (\<^verbatim>\<open>glUseProgram\<close>, \<^verbatim>\<open>glTexParameteri\<close>,
  \<^verbatim>\<open>glClear\<close>, \<^verbatim>\<open>eglMakeCurrent\<close> and the like) are not recorded. \<open>DrawVideo\<close> and
  \<open>DrawOverlay\<close> are the two \<^verbatim>\<open>glDrawArrays\<close> calls of \<^verbatim>\<open>Show\<close>, with the texture bound
  and, for the video quad, the vertex array in use.
\<close>

datatype event =
    CreateImageKHR attribs "EGLImage option"
  | GenTextures GLuint
  | EGLImageTargetTexture2DOES GLuint EGLImage
  | TexImage2D GLuint int int "pixels option"
  | DeleteTextures "GLuint option"
  | DrawVideo "GLuint option" "float list"
  | DrawOverlay GLuint
  | SwapBuffers bool
  | done_callback int
  | LOG nat string

datatype compile_status = Compiled GLuint | CompileError string
datatype link_status = Linked GLuint | LinkError int string

text \<open>
  The answers of the outside during one call: whether \<^verbatim>\<open>eglMakeCurrent\<close> succeeds, the
  compile status of a shader (its name, or the info log), the link status of a program
  (its name, or the length of the info log and the log), the texture names
  \<^verbatim>\<open>glGenTextures\<close> hands out in \<^verbatim>\<open>setup_overlay\<close> and in \<^verbatim>\<open>makeBuffer\<close>, the image
  \<^verbatim>\<open>eglCreateImageKHR\<close> returns for an attribute list (\<open>None\<close> is the null image),
  the result of \<^verbatim>\<open>eglSwapBuffers\<close>, and two library functions that format text:
  \<^verbatim>\<open>%f\<close> of \<^verbatim>\<open>snprintf\<close> and \<^verbatim>\<open>libcamera::ColorSpace::toString\<close>.
\<close>

record egl =
  eglMakeCurrent :: bool
  glCompileShader :: "GLenum \<Rightarrow> string \<Rightarrow> compile_status"
  glLinkProgram :: "GLuint \<Rightarrow> GLuint \<Rightarrow> link_status"
  glGenTextures_overlay :: GLuint
  eglCreateImageKHR :: "attribs \<Rightarrow> EGLImage option"
  glGenTextures :: GLuint
  eglSwapBuffers :: bool
  printf_f :: "float \<Rightarrow> string"
  toString :: "ColorSpace option \<Rightarrow> string"

text \<open>
  The data members of \<^verbatim>\<open>EglPreview\<close> that the member functions below read or write.
  \<open>buffers\<close> is the \<^verbatim>\<open>std::map\<close> from a file descriptor to its \<^verbatim>\<open>Buffer\<close>, as an
  association list. \<open>gl_setup_verts\<close> is the function-local \<^verbatim>\<open>static\<close> array
  \<^verbatim>\<open>verts\<close> of \<^verbatim>\<open>gl_setup\<close>: \<open>None\<close> until control first passes its declaration.
\<close>

record EglPreview =
  buffers :: "(int \<times> Buffer) list"
  last_fd :: int
  first_time :: bool
  preview_width :: int
  preview_height :: int
  prog :: GLuint
  verts :: "float list"
  overlay_prog :: GLuint
  overlay_present :: bool
  overlay_texture :: GLuint
  gl_setup_verts :: "float list option"
  trace :: "event list"

definition emit :: "event \<Rightarrow> EglPreview \<Rightarrow> EglPreview" where
  "emit e st = st\<lparr>trace := trace st @ [e]\<rparr>"

subsection \<open>Text\<close>

definition nl :: string where
  "nl = [CHR 0x0A]"

fun digits :: "nat \<Rightarrow> string" where
  "digits n = (if n < 10 then [''0123456789'' ! n]
               else digits (n div 10) @ [''0123456789'' ! (n mod 10)])"

text \<open>\<^verbatim>\<open>std::to_string(int)\<close>\<close>

definition to_string :: "int \<Rightarrow> string" where
  "to_string i = (if i < 0 then ''-'' @ digits (nat (- i)) else digits (nat i))"

text \<open>The format string of \<^verbatim>\<open>gl_setup\<close>, with its two \<^verbatim>\<open>%f\<close> already formatted.\<close>

definition video_vs :: "string \<Rightarrow> string \<Rightarrow> string" where
  "video_vs a b =
     ''attribute vec4 pos;'' @ nl @
     ''varying vec2 texcoord;'' @ nl @
     nl @
     ''void main() {'' @ nl @
     ''  gl_Position = pos;'' @ nl @
     ''  texcoord.x = pos.x / '' @ a @ '' + 0.5;'' @ nl @
     ''  texcoord.y = 0.5 - pos.y / '' @ b @ '';'' @ nl @
     ''}'' @ nl"

definition video_fs :: string where
  "video_fs =
     ''#extension GL_OES_EGL_image_external : enable'' @ nl @
     ''precision mediump float;'' @ nl @
     ''uniform samplerExternalOES s;'' @ nl @
     ''varying vec2 texcoord;'' @ nl @
     ''void main() {'' @ nl @
     ''  gl_FragColor = texture2D(s, texcoord);'' @ nl @
     ''}'' @ nl"

definition overlay_vs :: string where
  "overlay_vs =
     '''' @ nl @
     ''             attribute vec2 aPosition;'' @ nl @
     ''             varying vec2 texcoord;'' @ nl @
     '''' @ nl @
     ''             void main()'' @ nl @
     ''             {'' @ nl @
     ''                 gl_Position = vec4(aPosition * 2.0 - 1.0, 0.0, 1.0);'' @ nl @
     ''                 texcoord.x = aPosition.x;'' @ nl @
     ''                 texcoord.y = 1.0 - aPosition.y;'' @ nl @
     ''             }''"

definition overlay_fs :: string where
  "overlay_fs =
     '''' @ nl @
     ''            precision mediump float;'' @ nl @
     ''            varying vec2 texcoord;'' @ nl @
     ''            uniform sampler2D overlay;'' @ nl @
     '''' @ nl @
     ''            void main()'' @ nl @
     ''            {'' @ nl @
     ''                gl_FragColor = texture2D(overlay, texcoord);'' @ nl @
     ''            }'' @ nl @
     ''            ''"

subsection \<open>Shaders\<close>

definition compile_shader :: "egl \<Rightarrow> GLenum \<Rightarrow> string \<Rightarrow> error + GLuint" where
  "compile_shader env target source =
     (case glCompileShader env target source of
        Compiled s \<Rightarrow> Inr s
      | CompileError info_log \<Rightarrow>
          Inl (runtime_error (''failed to compile shader: '' @ info_log @ nl @ ''source:'' @ nl @ source)))"

definition link_program :: "egl \<Rightarrow> GLuint \<Rightarrow> GLuint \<Rightarrow> error + GLuint" where
  "link_program env vs fs =
     (case glLinkProgram env vs fs of
        Linked p \<Rightarrow> Inr p
      | LinkError n info_log \<Rightarrow>
          Inl (runtime_error (''failed to link: '' @ (if n > 1 then info_log else ''<empty log>''))))"

text \<open>
  \<^verbatim>\<open>setup_overlay\<close>: the overlay program, then a new texture, allocated without data at a
  quarter of \<^verbatim>\<open>width_\<close> and \<^verbatim>\<open>height_\<close> (\<^verbatim>\<open>int\<close> division, which truncates).
\<close>

definition setup_overlay :: "egl \<Rightarrow> EglPreview \<Rightarrow> error option \<times> EglPreview" where
  "setup_overlay env st =
     (case compile_shader env GL_VERTEX_SHADER overlay_vs of
        Inl e \<Rightarrow> (Some e, st)
      | Inr vs_s \<Rightarrow>
     (case compile_shader env GL_FRAGMENT_SHADER overlay_fs of
        Inl e \<Rightarrow> (Some e, st)
      | Inr fs_s \<Rightarrow>
     (case link_program env vs_s fs_s of
        Inl e \<Rightarrow> (Some e, st)
      | Inr p \<Rightarrow>
          (let st1 = st\<lparr>overlay_prog := p\<rparr>;
               st2 = emit (GenTextures (glGenTextures_overlay env))
                       (st1\<lparr>overlay_texture := glGenTextures_overlay env\<rparr>);
               overlay_width = preview_width st2 sdiv 4;
               overlay_height = preview_height st2 sdiv 4
           in (None, emit (TexImage2D (overlay_texture st2) overlay_width overlay_height None) st2)))))"

text \<open>The two scale factors that \<^verbatim>\<open>gl_setup\<close> computes first (its lines 202 to 206).\<close>

definition gl_setup_factors :: "int \<Rightarrow> int \<Rightarrow> int \<Rightarrow> int \<Rightarrow> float \<times> float" where
  "gl_setup_factors w h window_width window_height =
     (let w_factor = real_of_int w / real_of_int window_width;
          h_factor = real_of_int h / real_of_int window_height;
          max_dimension = max w_factor h_factor
      in (w_factor / max_dimension, h_factor / max_dimension))"

text \<open>
  \<^verbatim>\<open>gl_setup\<close>. The array \<^verbatim>\<open>verts\<close> is \<^verbatim>\<open>const static\<close> with an initialiser that is not
  constant, so C++ initialises it the first time control passes the declaration and
  never again; every call copies it to \<^verbatim>\<open>verts_\<close>.
\<close>

definition gl_setup :: "egl \<Rightarrow> int \<Rightarrow> int \<Rightarrow> int \<Rightarrow> int \<Rightarrow> EglPreview \<Rightarrow> error option \<times> EglPreview" where
  "gl_setup env w h window_width window_height st =
     (case gl_setup_factors w h window_width window_height of (w_factor, h_factor) \<Rightarrow>
      let vs = take 255 (video_vs (printf_f env (2 * w_factor)) (printf_f env (2 * h_factor))) in
     (case compile_shader env GL_VERTEX_SHADER vs of
        Inl e \<Rightarrow> (Some e, st)
      | Inr vs_s \<Rightarrow>
     (case compile_shader env GL_FRAGMENT_SHADER video_fs of
        Inl e \<Rightarrow> (Some e, st)
      | Inr fs_s \<Rightarrow>
     (case link_program env vs_s fs_s of
        Inl e \<Rightarrow> (Some e, st)
      | Inr p \<Rightarrow>
          (let static_verts =
                 (case gl_setup_verts st of
                    None \<Rightarrow> [- w_factor, - h_factor, w_factor, - h_factor,
                              w_factor, h_factor, - w_factor, h_factor]
                  | Some v \<Rightarrow> v)
           in (None, st\<lparr>prog := p, gl_setup_verts := Some static_verts, verts := static_verts\<rparr>))))))"

subsection \<open>Importing a buffer\<close>

text \<open>
  \<^verbatim>\<open>get_colour_space_info\<close>: the two out-parameters are the result; the \<^verbatim>\<open>LOG\<close> of the
  last branch goes to the trace.
\<close>

definition get_colour_space_info ::
  "egl \<Rightarrow> ColorSpace option \<Rightarrow> EglPreview \<Rightarrow> (EGLint \<times> EGLint) \<times> EglPreview" where
  "get_colour_space_info env cs st =
     (let encoding = EGL_ITU_REC601_EXT;
          rng = EGL_YUV_NARROW_RANGE_EXT
      in if cs = Some Sycc then ((encoding, EGL_YUV_FULL_RANGE_EXT), st)
         else if cs = Some Smpte170m then ((encoding, rng), st)
         else if cs = Some Rec709 then ((EGL_ITU_REC709_EXT, rng), st)
         else ((encoding, rng),
               emit (LOG 1 (''EglPreview: unexpected colour space '' @ toString env cs)) st))"

text \<open>
  The attribute list of \<^verbatim>\<open>makeBuffer\<close>. The members of \<^verbatim>\<open>info\<close> are \<^verbatim>\<open>unsigned int\<close>:
  products, sums and quotients are those of 32-bit words, and \<^verbatim>\<open>static_cast<EGLint>\<close>
  reads the word as a signed number.
\<close>

definition makeBuffer_attribs :: "int \<Rightarrow> StreamInfo \<Rightarrow> EGLint \<Rightarrow> EGLint \<Rightarrow> attribs" where
  "makeBuffer_attribs f si encoding rng =
     [(EGL_WIDTH, Val (sint (width si))),
      (EGL_HEIGHT, Val (sint (height si))),
      (EGL_LINUX_DRM_FOURCC_EXT, DRM_FORMAT_YUV420),
      (EGL_DMA_BUF_PLANE0_FD_EXT, Val f),
      (EGL_DMA_BUF_PLANE0_OFFSET_EXT, Val 0),
      (EGL_DMA_BUF_PLANE0_PITCH_EXT, Val (sint (stride si))),
      (EGL_DMA_BUF_PLANE1_FD_EXT, Val f),
      (EGL_DMA_BUF_PLANE1_OFFSET_EXT, Val (sint (stride si * height si))),
      (EGL_DMA_BUF_PLANE1_PITCH_EXT, Val (sint (stride si div 2))),
      (EGL_DMA_BUF_PLANE2_FD_EXT, Val f),
      (EGL_DMA_BUF_PLANE2_OFFSET_EXT,
         Val (sint (stride si * height si + (stride si div 2) * (height si div 2)))),
      (EGL_DMA_BUF_PLANE2_PITCH_EXT, Val (sint (stride si div 2))),
      (EGL_YUV_COLOR_SPACE_HINT_EXT, encoding),
      (EGL_SAMPLE_RANGE_HINT_EXT, rng)]"

text \<open>The block of \<^verbatim>\<open>makeBuffer\<close> that runs when \<^verbatim>\<open>first_time_\<close> is set.\<close>

definition makeBuffer_first_time :: "egl \<Rightarrow> StreamInfo \<Rightarrow> EglPreview \<Rightarrow> error option \<times> EglPreview" where
  "makeBuffer_first_time env si st =
     (if \<not> eglMakeCurrent env then (Some (runtime_error ''eglMakeCurrent failed''), st)
      else
        (case gl_setup env (sint (width si)) (sint (height si))
                (preview_width st) (preview_height st) st of
           (Some e, st1) \<Rightarrow> (Some e, st1)
         | (None, st1) \<Rightarrow>
        (case setup_overlay env st1 of
           (Some e, st2) \<Rightarrow> (Some e, st2)
         | (None, st2) \<Rightarrow> (None, st2\<lparr>first_time := False\<rparr>))))"

text \<open>
  \<^verbatim>\<open>makeBuffer\<close>. The \<^verbatim>\<open>Buffer &\<close> is passed in and returned; what was written to it
  before an exception stays written.
\<close>

definition makeBuffer ::
  "egl \<Rightarrow> int \<Rightarrow> size_t \<Rightarrow> StreamInfo \<Rightarrow> Buffer \<Rightarrow> EglPreview \<Rightarrow> error option \<times> Buffer \<times> EglPreview" where
  "makeBuffer env f sz si buffer st =
     (case (if first_time st then makeBuffer_first_time env si st else (None, st)) of
        (Some e, st1) \<Rightarrow> (Some e, buffer, st1)
      | (None, st1) \<Rightarrow>
          (let buffer1 = buffer\<lparr>fd := f, size_bytes := Some sz, info := Some si\<rparr> in
          (case get_colour_space_info env (colour_space si) st1 of
             ((encoding, rng), st2) \<Rightarrow>
               (let attrs = makeBuffer_attribs f si encoding rng;
                    img = eglCreateImageKHR env attrs;
                    st3 = emit (CreateImageKHR attrs img) st2
                in
               (case img of
                  None \<Rightarrow>
                    (Some (runtime_error (''failed to import fd '' @ to_string f)), buffer1, st3)
                | Some im \<Rightarrow>
                    (let buffer2 = buffer1\<lparr>texture := Some (glGenTextures env)\<rparr>;
                         st4 = emit (GenTextures (glGenTextures env)) st3;
                         st5 = emit (EGLImageTargetTexture2DOES (glGenTextures env) im) st4
                     in (None, buffer2, st5)))))))"

subsection \<open>The member functions\<close>

text \<open>
  \<^verbatim>\<open>SetOverlay\<close>: a null \<^verbatim>\<open>buf\<close> is \<open>None\<close>. The result of its \<^verbatim>\<open>eglMakeCurrent\<close> is not
  looked at.
\<close>

definition SetOverlay :: "pixels option \<Rightarrow> int \<Rightarrow> int \<Rightarrow> EglPreview \<Rightarrow> EglPreview" where
  "SetOverlay buf w h st =
     (case buf of
        None \<Rightarrow> st\<lparr>overlay_present := False\<rparr>
      | Some b \<Rightarrow> (emit (TexImage2D (overlay_texture st) w h (Some b)) st)\<lparr>overlay_present := True\<rparr>)"

text \<open>
  The first statements of \<^verbatim>\<open>Show\<close> (lines 521 to 523), which the specification calls
  resolving a handle: \<^verbatim>\<open>buffers_[fd]\<close> inserts a default \<^verbatim>\<open>Buffer\<close> for a new key and
  gives a reference to the entry, and \<^verbatim>\<open>makeBuffer\<close> runs when the entry's \<^verbatim>\<open>fd\<close> is -1.
\<close>

definition Show_resolve ::
  "egl \<Rightarrow> int \<Rightarrow> size_t \<Rightarrow> StreamInfo \<Rightarrow> EglPreview \<Rightarrow> error option \<times> Buffer \<times> EglPreview" where
  "Show_resolve env f sz si st =
     (let (buffer, st1) =
            (case map_of (buffers st) f of
               Some b \<Rightarrow> (b, st)
             | None \<Rightarrow> (Buffer_default, st\<lparr>buffers := AList.update f Buffer_default (buffers st)\<rparr>))
      in if fd buffer = -1 then
           (case makeBuffer env f sz si buffer st1 of (err, buffer', st2) \<Rightarrow>
              (err, buffer', st2\<lparr>buffers := AList.update f buffer' (buffers st2)\<rparr>))
         else (None, buffer, st1))"

text \<open>
  \<^verbatim>\<open>Show\<close>. The span is only asked for its size. The result of \<^verbatim>\<open>eglSwapBuffers\<close> is
  stored in a variable that is \<^verbatim>\<open>[[maybe_unused]]\<close> and not read.
\<close>

definition Show :: "egl \<Rightarrow> int \<Rightarrow> size_t \<Rightarrow> StreamInfo \<Rightarrow> EglPreview \<Rightarrow> error option \<times> EglPreview" where
  "Show env f sz si st =
     (case Show_resolve env f sz si st of
        (Some e, buffer, st1) \<Rightarrow> (Some e, st1)
      | (None, buffer, st1) \<Rightarrow>
          (let st2 = emit (DrawVideo (texture buffer) (verts st1)) st1;
               st3 = (if overlay_present st2 then emit (DrawOverlay (overlay_texture st2)) st2 else st2);
               st4 = emit (SwapBuffers (eglSwapBuffers env)) st3;
               st5 = (if last_fd st4 \<ge> 0 then emit (done_callback (last_fd st4)) st4 else st4)
           in (None, st5\<lparr>last_fd := f\<rparr>)))"

text \<open>\<^verbatim>\<open>Reset\<close>. A \<^verbatim>\<open>std::map\<close> is iterated in the order of its keys.\<close>

definition Reset :: "EglPreview \<Rightarrow> EglPreview" where
  "Reset st =
     (let st1 = fold (\<lambda>it. emit (DeleteTextures (texture (snd it)))) (sort_key fst (buffers st)) st
      in st1\<lparr>buffers := [], last_fd := -1, first_time := True\<rparr>)"

subsection \<open>Notions used to state the properties\<close>

text \<open>The events that a call appends to the trace, given the states before and after it.\<close>

definition emitted :: "EglPreview \<Rightarrow> EglPreview \<Rightarrow> event list" where
  "emitted st st' = drop (length (trace st)) (trace st')"

text \<open>
  Kinds of events: those of the release protocol (the swap that presents a frame and
  the callback that reports a file descriptor as free), the calls of
  \<^verbatim>\<open>eglCreateImageKHR\<close>, the log lines, and the calls of \<^verbatim>\<open>glTexImage2D\<close>.
\<close>

definition is_protocol :: "event \<Rightarrow> bool" where
  "is_protocol e = (case e of SwapBuffers r \<Rightarrow> True | done_callback f \<Rightarrow> True | _ \<Rightarrow> False)"

definition is_import :: "event \<Rightarrow> bool" where
  "is_import e = (case e of CreateImageKHR a im \<Rightarrow> True | _ \<Rightarrow> False)"

definition is_log :: "event \<Rightarrow> bool" where
  "is_log e = (case e of LOG n m \<Rightarrow> True | _ \<Rightarrow> False)"

definition is_teximage :: "event \<Rightarrow> bool" where
  "is_teximage e = (case e of TexImage2D t w h px \<Rightarrow> True | _ \<Rightarrow> False)"



text \<open>The file descriptors that a list of events reports as free, in order.\<close>

fun released :: "event list \<Rightarrow> int list" where
  "released [] = []"
| "released (done_callback f # es) = f # released es"
| "released (e # es) = released es"

text \<open>
  The exception of \<^verbatim>\<open>makeBuffer\<close> for a failed import, which the specification calls
  \<open>ImportFailure\<close>; an exception is a \<open>setup_failure\<close> when it is not one of these.
\<close>

definition ImportFailure :: "int \<Rightarrow> error" where
  "ImportFailure f = runtime_error (''failed to import fd '' @ to_string f)"

definition setup_failure :: "error \<Rightarrow> bool" where
  "setup_failure e = (\<forall>f. e \<noteq> ImportFailure f)"

text \<open>What \<^verbatim>\<open>setup_overlay\<close> appends to the trace when it returns.\<close>

definition setup_events :: "egl \<Rightarrow> EglPreview \<Rightarrow> event list" where
  "setup_events env st =
     [GenTextures (glGenTextures_overlay env),
      TexImage2D (glGenTextures_overlay env) (preview_width st sdiv 4) (preview_height st sdiv 4) None]"

text \<open>
  The fixed table of section 6 of the specification, written from its words: the
  encoding and the range for each colour space, with BT.601 and the narrow range
  for an unspecified colour space and for any other one.
\<close>

definition colour_space_table :: "ColorSpace option \<Rightarrow> EGLint \<times> EGLint" where
  "colour_space_table cs =
     (case cs of
        None \<Rightarrow> (EGL_ITU_REC601_EXT, EGL_YUV_NARROW_RANGE_EXT)
      | Some Smpte170m \<Rightarrow> (EGL_ITU_REC601_EXT, EGL_YUV_NARROW_RANGE_EXT)
      | Some Sycc \<Rightarrow> (EGL_ITU_REC601_EXT, EGL_YUV_FULL_RANGE_EXT)
      | Some Rec709 \<Rightarrow> (EGL_ITU_REC709_EXT, EGL_YUV_NARROW_RANGE_EXT)
      | Some (OtherColorSpace n) \<Rightarrow> (EGL_ITU_REC601_EXT, EGL_YUV_NARROW_RANGE_EXT))"

text \<open>What \<^verbatim>\<open>get_colour_space_info\<close> logs, and the attribute list \<^verbatim>\<open>makeBuffer\<close> imports with.\<close>

definition colour_space_log :: "egl \<Rightarrow> ColorSpace option \<Rightarrow> event list" where
  "colour_space_log env cs =
     (if cs = Some Sycc \<or> cs = Some Smpte170m \<or> cs = Some Rec709 then []
      else [LOG 1 (''EglPreview: unexpected colour space '' @ toString env cs)])"

definition import_attribs :: "int \<Rightarrow> StreamInfo \<Rightarrow> attribs" where
  "import_attribs f si =
     makeBuffer_attribs f si (fst (colour_space_table (colour_space si)))
       (snd (colour_space_table (colour_space si)))"

text \<open>
  A file descriptor is registered with an entry when \<^verbatim>\<open>buffers_\<close> has that entry for it
  and the entry's \<^verbatim>\<open>fd\<close> is not -1; \<open>Show_buffer\<close> is what \<^verbatim>\<open>buffers_[fd]\<close> refers to.
\<close>

definition registered :: "int \<Rightarrow> Buffer \<Rightarrow> EglPreview \<Rightarrow> bool" where
  "registered f b st = (map_of (buffers st) f = Some b \<and> fd b \<noteq> -1)"

definition Show_buffer :: "int \<Rightarrow> EglPreview \<Rightarrow> Buffer" where
  "Show_buffer f st = (case map_of (buffers st) f of Some b \<Rightarrow> b | None \<Rightarrow> Buffer_default)"

text \<open>What \<^verbatim>\<open>Show\<close> appends to the trace once the buffer is resolved.\<close>

definition Show_draw :: "egl \<Rightarrow> Buffer \<Rightarrow> EglPreview \<Rightarrow> event list" where
  "Show_draw env b st =
     DrawVideo (texture b) (verts st) #
     (if overlay_present st then [DrawOverlay (overlay_texture st)] else []) @
     SwapBuffers (eglSwapBuffers env) #
     (if 0 \<le> last_fd st then [done_callback (last_fd st)] else [])"

text \<open>
  A sequence of calls of \<^verbatim>\<open>Show\<close>, each with the answers of the outside during it: the
  result is, for each call, the exception if any and the events the call appended,
  and the last state. A caller that catches an exception can go on calling.
\<close>

type_synonym call = "egl \<times> int \<times> size_t \<times> StreamInfo"

definition handle :: "call \<Rightarrow> int" where
  "handle c = fst (snd c)"

fun presents :: "call list \<Rightarrow> EglPreview \<Rightarrow> (error option \<times> event list) list \<times> EglPreview" where
  "presents [] st = ([], st)"
| "presents (c # cs) st =
     (case c of (env, f, sz, si) \<Rightarrow>
      case Show env f sz si st of (r, st1) \<Rightarrow>
      case presents cs st1 of (out, st2) \<Rightarrow> ((r, emitted st st1) # out, st2))"

text \<open>
  A call of one of the three member functions that change the state, and a run of
  such calls; an exception of \<^verbatim>\<open>Show\<close> is caught and the run goes on.
\<close>

datatype request =
    ReqShow egl int size_t StreamInfo
  | ReqSetOverlay "pixels option" int int
  | ReqReset

fun run :: "request list \<Rightarrow> EglPreview \<Rightarrow> EglPreview" where
  "run [] st = st"
| "run (ReqShow env f sz si # rs) st = run rs (snd (Show env f sz si st))"
| "run (ReqSetOverlay buf w h # rs) st = run rs (SetOverlay buf w h st)"
| "run (ReqReset # rs) st = run rs (Reset st)"

subsection \<open>Example inputs\<close>

text \<open>
  An outside where every call succeeds, one where no image can be imported and one
  where only the swap fails; the state of a preview of 1024 by 768 after its
  constructor; a stream of 640 by 480 and one of 1920 by 1080; three calls of
  \<^verbatim>\<open>Show\<close> that succeed, the first two with the same file descriptor; and two calls
  without a \<^verbatim>\<open>Reset\<close>.
\<close>

definition env_ok :: egl where
  "env_ok = \<lparr>eglMakeCurrent = True, glCompileShader = (\<lambda>t s. Compiled 1),
     glLinkProgram = (\<lambda>vs fs. Linked 2), glGenTextures_overlay = 9,
     eglCreateImageKHR = (\<lambda>a. Some 1), glGenTextures = 10, eglSwapBuffers = True,
     printf_f = (\<lambda>x. ''1.000000''), toString = (\<lambda>cs. ''Unknown'')\<rparr>"

definition env_no_import :: egl where
  "env_no_import = env_ok\<lparr>eglCreateImageKHR := (\<lambda>a. None)\<rparr>"

definition env_swap_fails :: egl where
  "env_swap_fails = env_ok\<lparr>eglSwapBuffers := False\<rparr>"


definition st_init :: EglPreview where
  "st_init = \<lparr>buffers = [], last_fd = -1, first_time = True, preview_width = 1024,
     preview_height = 768, prog = 0, verts = [], overlay_prog = 0, overlay_present = False,
     overlay_texture = 0, gl_setup_verts = None, trace = []\<rparr>"

definition vga :: "ColorSpace option \<Rightarrow> StreamInfo" where
  "vga cs = \<lparr>width = 640, height = 480, stride = 640, colour_space = cs\<rparr>"

definition hd1080 :: "ColorSpace option \<Rightarrow> StreamInfo" where
  "hd1080 cs = \<lparr>width = 1920, height = 1080, stride = 1920, colour_space = cs\<rparr>"

definition example_calls :: "call list" where
  "example_calls = [(env_ok, 5, 100, vga None), (env_ok, 5, 100, vga None), (env_ok, 6, 100, vga None)]"

definition example_requests :: "request list" where
  "example_requests = [ReqSetOverlay None 0 0, ReqShow env_ok 4 100 (vga None)]"

section \<open>Properties\<close>

subsection \<open>What the setup functions change\<close>

lemma compile_shader_error: "compile_shader env t s = Inl e \<Longrightarrow> setup_failure e"
  by (auto simp: compile_shader_def setup_failure_def ImportFailure_def split: compile_status.splits)

lemma link_program_error: "link_program env a b = Inl e \<Longrightarrow> setup_failure e"
  by (auto simp: link_program_def setup_failure_def ImportFailure_def split: link_status.splits)

lemma make_current_error: "setup_failure (runtime_error ''eglMakeCurrent failed'')"
  by (simp add: setup_failure_def ImportFailure_def)

lemma gl_setup_frame:
  assumes "gl_setup env w h ww wh st = (r, st')"
  shows "buffers st' = buffers st" "last_fd st' = last_fd st" "first_time st' = first_time st"
    "preview_width st' = preview_width st" "preview_height st' = preview_height st"
    "overlay_present st' = overlay_present st" "trace st' = trace st"
  using assms by (auto simp: gl_setup_def Let_def split: prod.splits sum.splits)

lemma gl_setup_error:
  assumes "gl_setup env w h ww wh st = (Some e, st')"
  shows "setup_failure e"
  using assms by (auto simp: gl_setup_def Let_def split: prod.splits sum.splits dest: compile_shader_error link_program_error)

lemma setup_overlay_frame:
  assumes "setup_overlay env st = (r, st')"
  shows "buffers st' = buffers st" "last_fd st' = last_fd st" "first_time st' = first_time st"
    "preview_width st' = preview_width st" "preview_height st' = preview_height st"
    "overlay_present st' = overlay_present st" 
  using assms by (auto simp: setup_overlay_def emit_def Let_def split: prod.splits sum.splits)

lemma setup_overlay_error:
  assumes "setup_overlay env st = (Some e, st')"
  shows "setup_failure e \<and> trace st' = trace st"
  using assms by (auto simp: setup_overlay_def emit_def Let_def split: prod.splits sum.splits dest: compile_shader_error link_program_error)

lemma setup_overlay_ok:
  assumes "setup_overlay env st = (None, st')"
  shows "trace st' = trace st @ [GenTextures (glGenTextures_overlay env),
            TexImage2D (glGenTextures_overlay env) (preview_width st sdiv 4) (preview_height st sdiv 4) None]"
    "overlay_texture st' = glGenTextures_overlay env"
  using assms by (auto simp: setup_overlay_def emit_def Let_def split: prod.splits sum.splits)

lemma makeBuffer_first_time_cases:
  assumes "makeBuffer_first_time env si st = (r, st')"
  obtains
    (make_current) "\<not> eglMakeCurrent env" "r = Some (runtime_error ''eglMakeCurrent failed'')" "st' = st"
  | (gl_setup) e where "gl_setup env (sint (width si)) (sint (height si)) (preview_width st) (preview_height st) st = (Some e, st')"
      "r = Some e"
  | (setup_overlay) e st1 where "gl_setup env (sint (width si)) (sint (height si)) (preview_width st) (preview_height st) st = (None, st1)"
      "setup_overlay env st1 = (Some e, st')" "r = Some e"
  | (ok) st1 st2 where "gl_setup env (sint (width si)) (sint (height si)) (preview_width st) (preview_height st) st = (None, st1)"
      "setup_overlay env st1 = (None, st2)" "r = None" "st' = st2\<lparr>first_time := False\<rparr>"
  using assms
  by (auto simp: makeBuffer_first_time_def split: if_splits prod.splits option.splits)

lemma makeBuffer_first_time_frame:
  assumes "makeBuffer_first_time env si st = (r, st')"
  shows "buffers st' = buffers st \<and> last_fd st' = last_fd st \<and>
    preview_width st' = preview_width st \<and> preview_height st' = preview_height st \<and>
    overlay_present st' = overlay_present st"
  using assms
  by (cases rule: makeBuffer_first_time_cases;
      simp add: gl_setup_frame setup_overlay_frame)

lemma makeBuffer_first_time_error:
  assumes "makeBuffer_first_time env si st = (Some e, st')"
  shows "setup_failure e \<and> trace st' = trace st \<and> first_time st' = first_time st"
  using assms
  by (cases rule: makeBuffer_first_time_cases;
      simp add: gl_setup_frame setup_overlay_frame gl_setup_error setup_overlay_error make_current_error)

lemma makeBuffer_first_time_ok:
  assumes "makeBuffer_first_time env si st = (None, st')"
  shows "trace st' = trace st @ setup_events env st \<and> \<not> first_time st'"
  using assms
  by (cases rule: makeBuffer_first_time_cases;
      simp add: gl_setup_frame setup_overlay_frame setup_overlay_ok setup_events_def)

subsection \<open>What \<^verbatim>\<open>makeBuffer\<close> does\<close>

lemma get_colour_space_info_eq:
  "get_colour_space_info env cs st =
     (colour_space_table cs, st\<lparr>trace := trace st @ colour_space_log env cs\<rparr>)"
  by (cases cs; simp add: get_colour_space_info_def colour_space_table_def colour_space_log_def emit_def
        split: ColorSpace.splits)

lemma makeBuffer_setup_eq:
  assumes "(if first_time st then makeBuffer_first_time env si st else (None, st)) = (None, st1)"
  shows "makeBuffer env f sz si b st =
     (case eglCreateImageKHR env (import_attribs f si) of
        None \<Rightarrow> (Some (ImportFailure f), b\<lparr>fd := f, size_bytes := Some sz, info := Some si\<rparr>,
           st1\<lparr>trace := trace st1 @ colour_space_log env (colour_space si) @
              [CreateImageKHR (import_attribs f si) None]\<rparr>)
      | Some im \<Rightarrow> (None,
           b\<lparr>fd := f, size_bytes := Some sz, info := Some si, texture := Some (glGenTextures env)\<rparr>,
           st1\<lparr>trace := trace st1 @ colour_space_log env (colour_space si) @
              [CreateImageKHR (import_attribs f si) (Some im), GenTextures (glGenTextures env),
               EGLImageTargetTexture2DOES (glGenTextures env) im]\<rparr>))"
  unfolding makeBuffer_def assms
  by (simp add: get_colour_space_info_eq import_attribs_def ImportFailure_def emit_def Let_def case_prod_beta
        split: option.splits)

lemma makeBuffer_setup_failed:
  assumes "first_time st" "makeBuffer_first_time env si st = (Some e, st1)"
  shows "makeBuffer env f sz si b st = (Some e, b, st1)"
  using assms by (simp add: makeBuffer_def)

lemma makeBuffer_cases:
  assumes "makeBuffer env f sz si b st = (r, b', st')"
  obtains
    (no_setup) e where "first_time st" "makeBuffer_first_time env si st = (Some e, st')"
      "r = Some e" "b' = b"
  | (failed) st1 where
      "(if first_time st then makeBuffer_first_time env si st else (None, st)) = (None, st1)"
      "eglCreateImageKHR env (import_attribs f si) = None"
      "r = Some (ImportFailure f)"
      "b' = b\<lparr>fd := f, size_bytes := Some sz, info := Some si\<rparr>"
      "st' = st1\<lparr>trace := trace st1 @ colour_space_log env (colour_space si) @
              [CreateImageKHR (import_attribs f si) None]\<rparr>"
  | (imported) st1 im where
      "(if first_time st then makeBuffer_first_time env si st else (None, st)) = (None, st1)"
      "eglCreateImageKHR env (import_attribs f si) = Some im"
      "r = None"
      "b' = b\<lparr>fd := f, size_bytes := Some sz, info := Some si, texture := Some (glGenTextures env)\<rparr>"
      "st' = st1\<lparr>trace := trace st1 @ colour_space_log env (colour_space si) @
              [CreateImageKHR (import_attribs f si) (Some im), GenTextures (glGenTextures env),
               EGLImageTargetTexture2DOES (glGenTextures env) im]\<rparr>"
proof -
  obtain r0 st1 where s: "(if first_time st then makeBuffer_first_time env si st else (None, st)) = (r0, st1)"
    by (cases "if first_time st then makeBuffer_first_time env si st else (None, st)")
  show thesis
  proof (cases r0)
    case (Some e)
    with s have ft: "first_time st" and m: "makeBuffer_first_time env si st = (Some e, st1)"
      by (auto split: if_splits)
    from makeBuffer_setup_failed [OF ft m, of f sz b] assms
    have "r = Some e" "b' = b" "st' = st1" by simp_all
    with no_setup [of e] ft m show thesis by simp
  next
    case None
    with s have s1: "(if first_time st then makeBuffer_first_time env si st else (None, st)) = (None, st1)"
      by simp
    show thesis
    proof (cases "eglCreateImageKHR env (import_attribs f si)")
      case None
      with makeBuffer_setup_eq [OF s1, of f sz b] assms failed [OF s1] show thesis by simp
    next
      case (Some im)
      with makeBuffer_setup_eq [OF s1, of f sz b] assms imported [OF s1] show thesis by simp
    qed
  qed
qed

lemma setup_state:
  assumes "(if first_time st then makeBuffer_first_time env si st else (None, st)) = (None, st1)"
  shows "buffers st1 = buffers st \<and> last_fd st1 = last_fd st \<and>
    preview_width st1 = preview_width st \<and> preview_height st1 = preview_height st \<and>
    overlay_present st1 = overlay_present st \<and> \<not> first_time st1 \<and>
    trace st1 = trace st @ (if first_time st then setup_events env st else [])"
proof (cases "first_time st")
  case True
  with assms have m: "makeBuffer_first_time env si st = (None, st1)" by simp
  from makeBuffer_first_time_frame [OF m] makeBuffer_first_time_ok [OF m] True
  show ?thesis by simp
next
  case False
  with assms show ?thesis by simp
qed

lemma makeBuffer_frame:
  assumes "makeBuffer env f sz si b st = (r, b', st')"
  shows "buffers st' = buffers st \<and> last_fd st' = last_fd st \<and>
    preview_width st' = preview_width st \<and> preview_height st' = preview_height st \<and>
    overlay_present st' = overlay_present st"
  using assms
proof (cases rule: makeBuffer_cases)
  case (no_setup e)
  from makeBuffer_first_time_frame [OF no_setup(2)] show ?thesis by simp
next
  case (failed st1)
  from setup_state [OF failed(1)] failed(5) show ?thesis by simp
next
  case (imported st1 im)
  from setup_state [OF imported(1)] imported(5) show ?thesis by simp
qed

lemma emitted_append: "trace st' = trace st @ evs \<Longrightarrow> emitted st st' = evs"
  by (simp add: emitted_def)

lemma setup_events_no_import: "CreateImageKHR a r \<notin> set (setup_events env st)"
  by (simp add: setup_events_def)

lemma colour_space_log_no_import: "CreateImageKHR a r \<notin> set (colour_space_log env cs)"
  by (simp add: colour_space_log_def)

lemma makeBuffer_import_call:
  assumes "makeBuffer env f sz si b st = (r, b', st')"
    and "CreateImageKHR a im \<in> set (emitted st st')"
  shows "a = import_attribs f si \<and> im = eglCreateImageKHR env (import_attribs f si)"
  using assms(1)
proof (cases rule: makeBuffer_cases)
  case (no_setup e)
  from makeBuffer_first_time_error [OF no_setup(2)] have "emitted st st' = []"
    by (simp add: emitted_def)
  with assms(2) show ?thesis by simp
next
  case (failed st1)
  from setup_state [OF failed(1)] failed(5)
  have "emitted st st' = (if first_time st then setup_events env st else []) @
      colour_space_log env (colour_space si) @ [CreateImageKHR (import_attribs f si) None]"
    by (simp add: emitted_def)
  with assms(2) failed(2) show ?thesis
    by (auto simp: setup_events_no_import colour_space_log_no_import split: if_splits)
next
  case (imported st1 i)
  from setup_state [OF imported(1)] imported(5)
  have "emitted st st' = (if first_time st then setup_events env st else []) @
      colour_space_log env (colour_space si) @
      [CreateImageKHR (import_attribs f si) (Some i), GenTextures (glGenTextures env),
       EGLImageTargetTexture2DOES (glGenTextures env) i]"
    by (simp add: emitted_def)
  with assms(2) imported(2) show ?thesis
    by (auto simp: setup_events_no_import colour_space_log_no_import split: if_splits)
qed

lemma example_makeBuffer_emitted:
  "emitted st_init (snd (snd (makeBuffer env_ok 3 100 (vga cs) Buffer_default st_init))) =
     setup_events env_ok st_init @ colour_space_log env_ok cs @
     [CreateImageKHR (import_attribs 3 (vga cs)) (Some 1), GenTextures 10,
      EGLImageTargetTexture2DOES 10 1]"
proof -
  have s: "makeBuffer_first_time env_ok (vga cs) st_init = (None, snd (makeBuffer_first_time env_ok (vga cs) st_init))"
    by (simp add: makeBuffer_first_time_def gl_setup_def setup_overlay_def compile_shader_def
        link_program_def env_ok_def case_prod_beta Let_def)
  have f: "first_time st_init" by (simp add: st_init_def)
  from s f have "(if first_time st_init then makeBuffer_first_time env_ok (vga cs) st_init else (None, st_init)) =
     (None, snd (makeBuffer_first_time env_ok (vga cs) st_init))" by simp
  from makeBuffer_setup_eq [OF this, of 3 100 Buffer_default] makeBuffer_first_time_ok [OF s]
  show ?thesis
    by (simp add: emitted_def env_ok_def vga_def)
qed

subsection \<open>The colour space of an import\<close>

text \<open>
  Claim C4. \<^verbatim>\<open>get_colour_space_info\<close> returns the pair of the fixed table: BT.601 and
  the narrow range for an unspecified colour space, for Smpte170m and for any colour
  space the table does not name, BT.601 and the full range for Sycc, BT.709 and the
  narrow range for Rec709. Every attribute list that \<^verbatim>\<open>makeBuffer\<close> passes to
  \<^verbatim>\<open>eglCreateImageKHR\<close> carries that pair as its colour space hint and its sample
  range hint, whatever the geometry of the frame.
\<close>

theorem colour_space_mapping:
  "fst (get_colour_space_info env cs st) = colour_space_table cs \<and>
   (\<forall>a im. CreateImageKHR a im \<in> set (emitted st (snd (snd (makeBuffer env f sz si b st)))) \<longrightarrow>
      map_of a EGL_YUV_COLOR_SPACE_HINT_EXT = Some (fst (colour_space_table (colour_space si))) \<and>
      map_of a EGL_SAMPLE_RANGE_HINT_EXT = Some (snd (colour_space_table (colour_space si))))"
proof (intro conjI allI impI)
  show "fst (get_colour_space_info env cs st) = colour_space_table cs"
    by (simp add: get_colour_space_info_eq)
next
  fix a im
  assume e: "CreateImageKHR a im \<in> set (emitted st (snd (snd (makeBuffer env f sz si b st))))"
  obtain r b' st' where m: "makeBuffer env f sz si b st = (r, b', st')"
    by (cases "makeBuffer env f sz si b st")
  with e makeBuffer_import_call [OF m, of a im] have a: "a = import_attribs f si" by simp
  show "map_of a EGL_YUV_COLOR_SPACE_HINT_EXT = Some (fst (colour_space_table (colour_space si)))"
    by (simp add: a import_attribs_def makeBuffer_attribs_def)
  show "map_of a EGL_SAMPLE_RANGE_HINT_EXT = Some (snd (colour_space_table (colour_space si)))"
    by (simp add: a import_attribs_def makeBuffer_attribs_def)
qed

theorem colour_space_mapping_witness:
  "CreateImageKHR (import_attribs 3 (vga (Some Rec709))) (Some 1)
     \<in> set (emitted st_init (snd (snd (makeBuffer env_ok 3 100 (vga (Some Rec709)) Buffer_default st_init)))) \<and>
   map_of (import_attribs 3 (vga (Some Rec709))) EGL_YUV_COLOR_SPACE_HINT_EXT = Some EGL_ITU_REC709_EXT \<and>
   map_of (import_attribs 3 (vga (Some Rec709))) EGL_SAMPLE_RANGE_HINT_EXT = Some EGL_YUV_NARROW_RANGE_EXT"
proof -
  have h: "CreateImageKHR (import_attribs 3 (vga (Some Rec709))) (Some 1)
     \<in> set (emitted st_init (snd (snd (makeBuffer env_ok 3 100 (vga (Some Rec709)) Buffer_default st_init))))"
    by (simp add: example_makeBuffer_emitted)
  from colour_space_mapping [of env_ok "Some Rec709" st_init 3 100 "vga (Some Rec709)" Buffer_default] h
  have "map_of (import_attribs 3 (vga (Some Rec709))) EGL_YUV_COLOR_SPACE_HINT_EXT =
      Some (fst (colour_space_table (colour_space (vga (Some Rec709))))) \<and>
    map_of (import_attribs 3 (vga (Some Rec709))) EGL_SAMPLE_RANGE_HINT_EXT =
      Some (snd (colour_space_table (colour_space (vga (Some Rec709)))))"
    by blast
  with h show ?thesis by (simp add: colour_space_table_def vga_def)
qed

subsection \<open>The planes of an import\<close>

lemma sint_small:
  fixes x :: "32 word"
  assumes "unat x < 2 ^ 31"
  shows "sint x = int (unat x)"
proof -
  from assms have "int (unat x) < int (2 ^ 31)" by (simp only: of_nat_less_iff)
  then have "uint x < 2 ^ 31" by (simp only: uint_nat of_nat_power of_nat_numeral)
  moreover have "- (2 ^ 31) \<le> uint x" by (rule order_trans [of _ 0]) simp_all
  ultimately have "signed_take_bit 31 (uint x) = uint x"
    by (intro signed_take_bit_int_eq_self) simp_all
  then show ?thesis by (simp add: sint_uint)
qed

lemma plane_offsets_nat:
  fixes s h :: "32 word"
  assumes "unat s * unat h + (unat s div 2) * (unat h div 2) < 2 ^ 31"
  shows "unat (s * h) = unat s * unat h"
    and "unat (s * h + (s div 2) * (h div 2)) = unat s * unat h + (unat s div 2) * (unat h div 2)"
proof -
  have a: "unat s * unat h < 2 ^ 32" using assms by simp
  then show m: "unat (s * h) = unat s * unat h"
    using unat_mult_lem [of s h] by simp
  have "unat (s div 2) * unat (h div 2) < 2 ^ 32" using assms by (simp add: unat_div)
  then have n: "unat ((s div 2) * (h div 2)) = (unat s div 2) * (unat h div 2)"
    using unat_mult_lem [of "s div 2" "h div 2"] by (simp add: unat_div)
  have "unat (s * h) + unat ((s div 2) * (h div 2)) < 2 ^ 32" using assms m n by simp
  then show "unat (s * h + (s div 2) * (h div 2)) = unat s * unat h + (unat s div 2) * (unat h div 2)"
    using unat_add_lem [of "s * h" "(s div 2) * (h div 2)"] m n by simp
qed

text \<open>
  Claim C6. Every attribute list that \<^verbatim>\<open>makeBuffer\<close> passes to \<^verbatim>\<open>eglCreateImageKHR\<close>
  for a file descriptor \<open>f\<close> and a stream of stride \<open>s\<close> and height \<open>h\<close> names \<open>f\<close> as
  the descriptor of all three planes, with plane 0 at offset 0 and pitch \<open>s\<close>, plane 1
  at offset \<open>s * h\<close> and pitch \<open>s div 2\<close>, and plane 2 at offset
  \<open>s * h + (s div 2) * (h div 2)\<close> and pitch \<open>s div 2\<close>. The arithmetic is that of
  \<^verbatim>\<open>unsigned int\<close>, and the result is read as a signed \<^verbatim>\<open>EGLint\<close>; when the stride
  and the last offset are below \<open>2 ^ 31\<close> these are the numbers that the formulas
  give over the natural numbers.
\<close>

theorem plane_layout:
  "(\<forall>a im. CreateImageKHR a im \<in> set (emitted st (snd (snd (makeBuffer env f sz si b st)))) \<longrightarrow>
      map_of a EGL_DMA_BUF_PLANE0_FD_EXT = Some (Val f) \<and>
      map_of a EGL_DMA_BUF_PLANE1_FD_EXT = Some (Val f) \<and>
      map_of a EGL_DMA_BUF_PLANE2_FD_EXT = Some (Val f) \<and>
      map_of a EGL_DMA_BUF_PLANE0_OFFSET_EXT = Some (Val 0) \<and>
      map_of a EGL_DMA_BUF_PLANE0_PITCH_EXT = Some (Val (sint (stride si))) \<and>
      map_of a EGL_DMA_BUF_PLANE1_OFFSET_EXT = Some (Val (sint (stride si * height si))) \<and>
      map_of a EGL_DMA_BUF_PLANE1_PITCH_EXT = Some (Val (sint (stride si div 2))) \<and>
      map_of a EGL_DMA_BUF_PLANE2_OFFSET_EXT =
        Some (Val (sint (stride si * height si + (stride si div 2) * (height si div 2)))) \<and>
      map_of a EGL_DMA_BUF_PLANE2_PITCH_EXT = Some (Val (sint (stride si div 2)))) \<and>
   (unat (stride si) < 2 ^ 31 \<and>
    unat (stride si) * unat (height si) + (unat (stride si) div 2) * (unat (height si) div 2) < 2 ^ 31 \<longrightarrow>
      sint (stride si) = int (unat (stride si)) \<and>
      sint (stride si div 2) = int (unat (stride si) div 2) \<and>
      sint (stride si * height si) = int (unat (stride si) * unat (height si)) \<and>
      sint (stride si * height si + (stride si div 2) * (height si div 2)) =
        int (unat (stride si) * unat (height si) + (unat (stride si) div 2) * (unat (height si) div 2)))"
proof (intro conjI allI impI)
  fix a im
  assume e: "CreateImageKHR a im \<in> set (emitted st (snd (snd (makeBuffer env f sz si b st))))"
  obtain r b' st' where m: "makeBuffer env f sz si b st = (r, b', st')"
    by (cases "makeBuffer env f sz si b st")
  with e makeBuffer_import_call [OF m, of a im] have a: "a = import_attribs f si" by simp
  show "map_of a EGL_DMA_BUF_PLANE0_FD_EXT = Some (Val f)"
    "map_of a EGL_DMA_BUF_PLANE1_FD_EXT = Some (Val f)"
    "map_of a EGL_DMA_BUF_PLANE2_FD_EXT = Some (Val f)"
    "map_of a EGL_DMA_BUF_PLANE0_OFFSET_EXT = Some (Val 0)"
    "map_of a EGL_DMA_BUF_PLANE0_PITCH_EXT = Some (Val (sint (stride si)))"
    "map_of a EGL_DMA_BUF_PLANE1_OFFSET_EXT = Some (Val (sint (stride si * height si)))"
    "map_of a EGL_DMA_BUF_PLANE1_PITCH_EXT = Some (Val (sint (stride si div 2)))"
    "map_of a EGL_DMA_BUF_PLANE2_OFFSET_EXT =
        Some (Val (sint (stride si * height si + (stride si div 2) * (height si div 2))))"
    "map_of a EGL_DMA_BUF_PLANE2_PITCH_EXT = Some (Val (sint (stride si div 2)))"
    by (simp_all add: a import_attribs_def makeBuffer_attribs_def)
next
  assume h: "unat (stride si) < 2 ^ 31 \<and>
    unat (stride si) * unat (height si) + (unat (stride si) div 2) * (unat (height si) div 2) < 2 ^ 31"
  then have s: "unat (stride si) < 2 ^ 31"
    and o: "unat (stride si) * unat (height si) + (unat (stride si) div 2) * (unat (height si) div 2) < 2 ^ 31"
    by simp_all
  note n = plane_offsets_nat [OF o]
  show "sint (stride si) = int (unat (stride si))" by (rule sint_small [OF s])
  have "unat (stride si div 2) < 2 ^ 31" using s by (simp add: unat_div)
  then show "sint (stride si div 2) = int (unat (stride si) div 2)"
    using sint_small [of "stride si div 2"] by (simp add: unat_div)
  have "unat (stride si * height si) < 2 ^ 31" using o n(1) by simp
  then show "sint (stride si * height si) = int (unat (stride si) * unat (height si))"
    using sint_small [of "stride si * height si"] n(1) by simp
  have "unat (stride si * height si + (stride si div 2) * (height si div 2)) < 2 ^ 31"
    using o n(2) by simp
  then show "sint (stride si * height si + (stride si div 2) * (height si div 2)) =
        int (unat (stride si) * unat (height si) + (unat (stride si) div 2) * (unat (height si) div 2))"
    using sint_small [of "stride si * height si + (stride si div 2) * (height si div 2)"] n(2) by simp
qed

theorem plane_layout_witness:
  "CreateImageKHR (import_attribs 3 (vga None)) (Some 1)
     \<in> set (emitted st_init (snd (snd (makeBuffer env_ok 3 100 (vga None) Buffer_default st_init)))) \<and>
   map_of (import_attribs 3 (vga None)) EGL_DMA_BUF_PLANE1_OFFSET_EXT = Some (Val 307200) \<and>
   map_of (import_attribs 3 (vga None)) EGL_DMA_BUF_PLANE2_OFFSET_EXT = Some (Val 384000) \<and>
   map_of (import_attribs 3 (vga None)) EGL_DMA_BUF_PLANE2_PITCH_EXT = Some (Val 320) \<and>
   unat (stride (vga None)) < 2 ^ 31 \<and>
   unat (stride (vga None)) * unat (height (vga None)) +
     (unat (stride (vga None)) div 2) * (unat (height (vga None)) div 2) < 2 ^ 31 \<and>
   sint (stride (vga None) * height (vga None) + (stride (vga None) div 2) * (height (vga None) div 2)) = 384000"
proof -
  have h: "CreateImageKHR (import_attribs 3 (vga None)) (Some 1)
     \<in> set (emitted st_init (snd (snd (makeBuffer env_ok 3 100 (vga None) Buffer_default st_init))))"
    by (simp add: example_makeBuffer_emitted)
  have s: "unat (stride (vga None)) < 2 ^ 31 \<and>
    unat (stride (vga None)) * unat (height (vga None)) +
     (unat (stride (vga None)) div 2) * (unat (height (vga None)) div 2) < 2 ^ 31"
    by (simp add: vga_def)
  note t = plane_layout [of st_init env_ok 3 100 "vga None" Buffer_default]
  from t h have "map_of (import_attribs 3 (vga None)) EGL_DMA_BUF_PLANE1_OFFSET_EXT =
       Some (Val (sint (stride (vga None) * height (vga None)))) \<and>
     map_of (import_attribs 3 (vga None)) EGL_DMA_BUF_PLANE2_OFFSET_EXT =
       Some (Val (sint (stride (vga None) * height (vga None) +
         (stride (vga None) div 2) * (height (vga None) div 2)))) \<and>
     map_of (import_attribs 3 (vga None)) EGL_DMA_BUF_PLANE2_PITCH_EXT =
       Some (Val (sint (stride (vga None) div 2)))"
    by blast
  moreover from t s have "sint (stride (vga None) * height (vga None) +
      (stride (vga None) div 2) * (height (vga None) div 2)) =
    int (unat (stride (vga None)) * unat (height (vga None)) +
      (unat (stride (vga None)) div 2) * (unat (height (vga None)) div 2))"
    by blast
  ultimately show ?thesis using h s by (simp add: vga_def)
qed

subsection \<open>What \<^verbatim>\<open>Show\<close> does\<close>

lemma fd_Buffer_default: "fd Buffer_default = -1"
  by (simp add: Buffer_default_def)

lemma Show_resolve_hit:
  assumes "registered f b st"
  shows "Show_resolve env f sz si st = (None, b, st)"
  using assms by (simp add: Show_resolve_def registered_def)

lemma Show_resolve_miss:
  assumes "fd (Show_buffer f st) = -1"
  shows "Show_resolve env f sz si st =
    (case makeBuffer env f sz si (Show_buffer f st)
            (st\<lparr>buffers := AList.update f (Show_buffer f st) (buffers st)\<rparr>) of
       (r, b', st2) \<Rightarrow> (r, b', st2\<lparr>buffers := AList.update f b' (buffers st)\<rparr>))"
proof (cases "map_of (buffers st) f")
  case None
  obtain r b' st2 where m: "makeBuffer env f sz si Buffer_default
      (st\<lparr>buffers := AList.update f Buffer_default (buffers st)\<rparr>) = (r, b', st2)"
    by (cases "makeBuffer env f sz si Buffer_default
      (st\<lparr>buffers := AList.update f Buffer_default (buffers st)\<rparr>)")
  from makeBuffer_frame [OF m] have "buffers st2 = AList.update f Buffer_default (buffers st)"
    by simp
  with None m show ?thesis
    by (simp add: Show_resolve_def Show_buffer_def fd_Buffer_default)
next
  case (Some b)
  with assms have b: "fd b = -1" by (simp add: Show_buffer_def)
  from Some have u: "AList.update f b (buffers st) = buffers st"
    by (simp add: update_triv)
  obtain r b' st2 where m: "makeBuffer env f sz si b st = (r, b', st2)"
    by (cases "makeBuffer env f sz si b st")
  from makeBuffer_frame [OF m] have "buffers st2 = buffers st" by simp
  with Some b u m show ?thesis
    by (simp add: Show_resolve_def Show_buffer_def)
qed

lemma Show_resolve_cases:
  assumes "Show_resolve env f sz si st = (r, b', st')"
  obtains
    (hit) "registered f b' st" "r = None" "st' = st"
  | (miss) st2 where "fd (Show_buffer f st) = -1"
      "makeBuffer env f sz si (Show_buffer f st)
         (st\<lparr>buffers := AList.update f (Show_buffer f st) (buffers st)\<rparr>) = (r, b', st2)"
      "st' = st2\<lparr>buffers := AList.update f b' (buffers st)\<rparr>"
proof (cases "fd (Show_buffer f st) = -1")
  case True
  obtain r2 b2 st2 where m: "makeBuffer env f sz si (Show_buffer f st)
         (st\<lparr>buffers := AList.update f (Show_buffer f st) (buffers st)\<rparr>) = (r2, b2, st2)"
    by (cases "makeBuffer env f sz si (Show_buffer f st)
         (st\<lparr>buffers := AList.update f (Show_buffer f st) (buffers st)\<rparr>)")
  with Show_resolve_miss [OF True, of env sz si] assms
  have "r2 = r" "b2 = b'" "st' = st2\<lparr>buffers := AList.update f b' (buffers st)\<rparr>" by simp_all
  with m miss [OF True, of st2] show thesis by simp
next
  case False
  then obtain b where b: "map_of (buffers st) f = Some b" "fd b \<noteq> -1"
    by (auto simp: Show_buffer_def fd_Buffer_default split: option.splits)
  then have reg: "registered f b st" by (simp add: registered_def)
  from Show_resolve_hit [OF reg, of env sz si] assms have "r = None" "b' = b" "st' = st" by simp_all
  with reg hit show thesis by simp
qed

lemma makeBuffer_trace:
  assumes "makeBuffer env f sz si b st = (r, b', st')"
  shows "trace st' = trace st @ emitted st st' \<and> filter is_protocol (emitted st st') = []"
  using assms
proof (cases rule: makeBuffer_cases)
  case (no_setup e)
  from makeBuffer_first_time_error [OF no_setup(2)] show ?thesis
    by (simp add: emitted_def)
next
  case (failed st1)
  from setup_state [OF failed(1)] failed(5) show ?thesis
    by (simp add: emitted_def is_protocol_def setup_events_def colour_space_log_def)
next
  case (imported st1 im)
  from setup_state [OF imported(1)] imported(5) show ?thesis
    by (simp add: emitted_def is_protocol_def setup_events_def colour_space_log_def)
qed

lemma Show_resolve_frame:
  assumes "Show_resolve env f sz si st = (r, b', st')"
  shows "last_fd st' = last_fd st \<and> overlay_present st' = overlay_present st \<and>
    preview_width st' = preview_width st \<and> preview_height st' = preview_height st \<and>
    trace st' = trace st @ emitted st st' \<and> filter is_protocol (emitted st st') = []"
  using assms
proof (cases rule: Show_resolve_cases)
  case hit
  then show ?thesis by (simp add: emitted_def)
next
  case (miss st2)
  from makeBuffer_frame [OF miss(2)] makeBuffer_trace [OF miss(2)] miss(3)
  show ?thesis by (simp add: emitted_def)
qed

lemma Show_cases:
  assumes "Show env f sz si st = (r, st')"
  obtains
    (raised) e b where "Show_resolve env f sz si st = (Some e, b, st')" "r = Some e"
  | (shown) b st1 where "Show_resolve env f sz si st = (None, b, st1)" "r = None"
      "st' = st1\<lparr>trace := trace st1 @ Show_draw env b st1, last_fd := f\<rparr>"
proof -
  obtain r1 b st1 where s: "Show_resolve env f sz si st = (r1, b, st1)"
    by (cases "Show_resolve env f sz si st")
  show thesis
  proof (cases r1)
    case None
    with s assms have "r = None" "st' = st1\<lparr>trace := trace st1 @ Show_draw env b st1, last_fd := f\<rparr>"
      by (auto simp: Show_def Show_draw_def emit_def Let_def)
    with s None shown show thesis by simp
  next
    case (Some e)
    with s assms have "r = Some e" "st' = st1" by (simp_all add: Show_def)
    with s Some raised show thesis by simp
  qed
qed

lemma Show_protocol:
  assumes "Show env f sz si st = (r, st')"
  shows "trace st' = trace st @ emitted st st' \<and>
    (case r of
       None \<Rightarrow> last_fd st' = f \<and>
         filter is_protocol (emitted st st') =
           SwapBuffers (eglSwapBuffers env) # (if 0 \<le> last_fd st then [done_callback (last_fd st)] else [])
     | Some e \<Rightarrow> last_fd st' = last_fd st \<and> filter is_protocol (emitted st st') = [])"
  using assms
proof (cases rule: Show_cases)
  case (raised e b)
  from Show_resolve_frame [OF raised(1)] raised(2) show ?thesis by simp
next
  case (shown b st1)
  note fr = Show_resolve_frame [OF shown(1)]
  from fr have t: "trace st' = trace st @ emitted st st1 @ Show_draw env b st1"
    using shown(3) by simp
  then have e: "emitted st st' = emitted st st1 @ Show_draw env b st1"
    by (simp add: emitted_def)
  from fr have "filter is_protocol (emitted st st1) = []" by simp
  moreover from fr have "filter is_protocol (Show_draw env b st1) =
      SwapBuffers (eglSwapBuffers env) # (if 0 \<le> last_fd st then [done_callback (last_fd st)] else [])"
    by (simp add: Show_draw_def is_protocol_def)
  ultimately show ?thesis using t e shown(2,3) by simp
qed

lemma handle_tuple: "handle (env, f, sz, si) = f"
  by (simp add: handle_def)

lemma presents_protocol:
  assumes "presents cs st = (out, st')" "\<forall>p \<in> set out. fst p = None"
  shows "map (\<lambda>p. filter is_protocol (snd p)) out =
      map (\<lambda>(c, prev). SwapBuffers (eglSwapBuffers (fst c)) # (if 0 \<le> prev then [done_callback prev] else []))
        (zip cs (last_fd st # map handle cs)) \<and>
    last_fd st' = last (last_fd st # map handle cs) \<and>
    trace st' = trace st @ concat (map snd out)"
  using assms
proof (induction cs arbitrary: st out)
  case Nil
  then show ?case by simp
next
  case (Cons c cs)
  obtain env f sz si where c: "c = (env, f, sz, si)" by (cases c)
  obtain r st1 where s: "Show env f sz si st = (r, st1)" by (cases "Show env f sz si st")
  obtain out1 st2 where p: "presents cs st1 = (out1, st2)" by (cases "presents cs st1")
  from Cons.prems(1) c s p have o: "out = (r, emitted st st1) # out1" and st2: "st' = st2" by simp_all
  with Cons.prems(2) have r: "r = None" and rest: "\<forall>p \<in> set out1. fst p = None" by simp_all
  from Show_protocol [OF s] r
  have t: "trace st1 = trace st @ emitted st st1" and l: "last_fd st1 = f"
    and e: "filter is_protocol (emitted st st1) =
      SwapBuffers (eglSwapBuffers env) # (if 0 \<le> last_fd st then [done_callback (last_fd st)] else [])"
    by simp_all
  from p st2 have p': "presents cs st1 = (out1, st')" by simp
  from Cons.IH [OF p' rest] l
  have ih: "map (\<lambda>p. filter is_protocol (snd p)) out1 =
      map (\<lambda>(c, prev). SwapBuffers (eglSwapBuffers (fst c)) # (if 0 \<le> prev then [done_callback prev] else []))
        (zip cs (f # map handle cs))"
    and il: "last_fd st' = last (f # map handle cs)"
    and it: "trace st' = trace st1 @ concat (map snd out1)"
    by simp_all
  from ih il it t e show ?case
    by (simp add: o c handle_tuple)
qed

subsection \<open>The release protocol\<close>

lemma released_append: "released (xs @ ys) = released xs @ released ys"
  by (induction xs rule: released.induct) simp_all

lemma released_filter: "released (filter is_protocol es) = released es"
  by (induction es rule: released.induct) (simp_all add: is_protocol_def)

lemma Show_trace: "Show env f sz si st = (r, st') \<Longrightarrow> trace st' = trace st @ emitted st st'"
  using Show_protocol by blast

lemma emitted_same: "emitted st st = []"
  by (simp add: emitted_def)

lemma emitted_trans:
  assumes "trace st1 = trace st @ emitted st st1" "trace st2 = trace st1 @ emitted st1 st2"
  shows "trace st2 = trace st @ emitted st st2 \<and> emitted st st2 = emitted st st1 @ emitted st1 st2"
proof -
  define a where "a = emitted st st1"
  define b where "b = emitted st1 st2"
  from assms have "trace st2 = trace st @ a @ b" by (simp add: a_def b_def)
  then have "emitted st st2 = a @ b" by (rule emitted_append)
  with \<open>trace st2 = trace st @ a @ b\<close> show ?thesis by (simp add: a_def b_def)
qed

lemma presents_trace:
  "presents cs st = (out, st') \<Longrightarrow> trace st' = trace st @ emitted st st'"
proof (induction cs arbitrary: st out)
  case Nil
  then show ?case by (simp add: emitted_same)
next
  case (Cons c cs)
  obtain env f sz si where c: "c = (env, f, sz, si)" by (cases c)
  obtain r st1 where s: "Show env f sz si st = (r, st1)" by (cases "Show env f sz si st")
  obtain out1 st2 where p: "presents cs st1 = (out1, st2)" by (cases "presents cs st1")
  from Cons.prems c s p have "st' = st2" by simp
  with p have "presents cs st1 = (out1, st')" by simp
  from emitted_trans [OF Show_trace [OF s] Cons.IH [OF this]] show ?case by simp
qed

lemma presents_released:
  assumes "presents cs st = (out, st')" "\<forall>p \<in> set out. fst p = None"
    "\<forall>c \<in> set cs. 0 \<le> handle c" "cs \<noteq> []"
  shows "released (emitted st st') =
    (if 0 \<le> last_fd st then [last_fd st] else []) @ map handle (butlast cs)"
  using assms
proof (induction cs arbitrary: st out)
  case Nil
  then show ?case by simp
next
  case (Cons c cs)
  obtain env f sz si where c: "c = (env, f, sz, si)" by (cases c)
  obtain r st1 where s: "Show env f sz si st = (r, st1)" by (cases "Show env f sz si st")
  obtain out1 st2 where p: "presents cs st1 = (out1, st2)" by (cases "presents cs st1")
  from Cons.prems(1) c s p have o: "out = (r, emitted st st1) # out1" and st2: "st' = st2" by simp_all
  with Cons.prems(2) have r: "r = None" and rest: "\<forall>p \<in> set out1. fst p = None" by simp_all
  from Cons.prems(3) c have f: "0 \<le> f" and hs: "\<forall>c \<in> set cs. 0 \<le> handle c"
    by (simp_all add: handle_tuple)
  from p st2 have p': "presents cs st1 = (out1, st')" by simp
  from Show_protocol [OF s] r
  have t: "trace st1 = trace st @ emitted st st1" and l: "last_fd st1 = f"
    and e: "filter is_protocol (emitted st st1) =
      SwapBuffers (eglSwapBuffers env) # (if 0 \<le> last_fd st then [done_callback (last_fd st)] else [])"
    by simp_all
  from e have "released (filter is_protocol (emitted st st1)) = (if 0 \<le> last_fd st then [last_fd st] else [])"
    by simp
  then have r1: "released (emitted st st1) = (if 0 \<le> last_fd st then [last_fd st] else [])"
    by (simp only: released_filter)
  from emitted_trans [OF t presents_trace [OF p']]
  have "emitted st st' = emitted st st1 @ emitted st1 st'" by simp
  then have split: "released (emitted st st') = released (emitted st st1) @ released (emitted st1 st')"
    by (simp add: released_append)
  show ?case
  proof (cases "cs = []")
    case True
    with p' have "st' = st1" by simp
    with split r1 True show ?thesis by (simp add: emitted_same)
  next
    case False
    from Cons.IH [OF p' rest hs False] l f
    have "released (emitted st1 st') = f # map handle (butlast cs)" by simp
    with split r1 False show ?thesis by (simp add: c handle_tuple)
  qed
qed

lemma presents_length: "presents cs st = (out, st') \<Longrightarrow> length out = length cs"
proof (induction cs arbitrary: st out st')
  case Nil
  then show ?case by simp
next
  case (Cons c cs)
  obtain env f sz si where c: "c = (env, f, sz, si)" by (cases c)
  obtain r st1 where s: "Show env f sz si st = (r, st1)" by (cases "Show env f sz si st")
  obtain out1 st2 where p: "presents cs st1 = (out1, st2)" by (cases "presents cs st1")
  from Cons.prems c s p have "out = (r, emitted st st1) # out1" by simp
  with Cons.IH [OF p] show ?case by simp
qed

lemma Reset_trace:
  "trace (fold (\<lambda>it. emit (DeleteTextures (texture (snd it)))) xs st) =
     trace st @ map (\<lambda>it. DeleteTextures (texture (snd it))) xs"
  by (induction xs arbitrary: st) (simp_all add: emit_def)

lemma Reset_emitted:
  "trace (Reset st) = trace st @ map (\<lambda>it. DeleteTextures (texture (snd it))) (sort_key fst (buffers st))"
  by (simp add: Reset_def Reset_trace Let_def)

lemma released_deletes: "released (map (\<lambda>it. DeleteTextures (texture (snd it))) xs) = []"
  by (induction xs) simp_all

text \<open>
  Claim C1. Take any sequence of calls of \<^verbatim>\<open>Show\<close> with file descriptors
  \<open>h\<^sub>1, \<dots>, h\<^sub>n\<close>, from any state, with no other call in between, where every
  call returns and every descriptor is a valid one (not negative; -1 is how the
  class writes "none"). Then the call for \<open>h\<^sub>k\<close> swaps the buffers and after that
  reports exactly one descriptor as free: \<open>h\<^sub>k\<^sub>-\<^sub>1\<close>, the one presented just before,
  whether or not it is equal to \<open>h\<^sub>k\<close>. The first call reports what the state
  held before the sequence, and nothing when that was none. So over the whole
  sequence \<open>h\<^sub>1, \<dots>, h\<^sub>n\<^sub>-\<^sub>1\<close> are reported once each, in order, each during the
  next call and after its swap; \<open>h\<^sub>n\<close> is held back in \<open>last_fd\<close>, and neither
  \<^verbatim>\<open>SetOverlay\<close> nor \<^verbatim>\<open>Reset\<close> reports it.
\<close>

theorem one_frame_delayed_release:
  assumes "presents cs st = (out, st')"
    and "\<forall>p \<in> set out. fst p = None"
    and "\<forall>c \<in> set cs. 0 \<le> handle c"
  shows "length out = length cs \<and>
    (\<forall>k < length cs. filter is_protocol (snd (out ! k)) =
        SwapBuffers (eglSwapBuffers (fst (cs ! k))) #
        (if k = 0 then (if 0 \<le> last_fd st then [done_callback (last_fd st)] else [])
         else [done_callback (handle (cs ! (k - 1)))])) \<and>
    (cs \<noteq> [] \<longrightarrow> last_fd st' = handle (last cs) \<and>
       released (emitted st st') =
         (if 0 \<le> last_fd st then [last_fd st] else []) @ map handle (butlast cs)) \<and>
    released (trace (SetOverlay px w h st')) = released (trace st') \<and>
    released (trace (Reset st')) = released (trace st')"
proof (intro conjI allI impI)
  show len: "length out = length cs" by (rule presents_length [OF assms(1)])
  note pp = presents_protocol [OF assms(1,2)]
  {
    fix k assume k: "k < length cs"
    from pp have "map (\<lambda>p. filter is_protocol (snd p)) out ! k =
      map (\<lambda>(c, prev). SwapBuffers (eglSwapBuffers (fst c)) # (if 0 \<le> prev then [done_callback prev] else []))
        (zip cs (last_fd st # map handle cs)) ! k" by simp
    with k len have eq: "filter is_protocol (snd (out ! k)) =
      SwapBuffers (eglSwapBuffers (fst (cs ! k))) #
        (if 0 \<le> (last_fd st # map handle cs) ! k then [done_callback ((last_fd st # map handle cs) ! k)] else [])"
      by simp
    show "filter is_protocol (snd (out ! k)) =
        SwapBuffers (eglSwapBuffers (fst (cs ! k))) #
        (if k = 0 then (if 0 \<le> last_fd st then [done_callback (last_fd st)] else [])
         else [done_callback (handle (cs ! (k - 1)))])"
    proof (cases k)
      case 0
      with eq show ?thesis by simp
    next
      case (Suc j)
      with k have "cs ! j \<in> set cs" by simp
      with assms(3) have "0 \<le> handle (cs ! j)" by blast
      with eq Suc k show ?thesis by simp
    qed
  }
  {
    assume ne: "cs \<noteq> []"
    with pp show "last_fd st' = handle (last cs)" by (simp add: last_map)
    from presents_released [OF assms ne]
    show "released (emitted st st') =
         (if 0 \<le> last_fd st then [last_fd st] else []) @ map handle (butlast cs)" .
  }
  show "released (trace (SetOverlay px w h st')) = released (trace st')"
    by (cases px) (simp_all add: SetOverlay_def emit_def released_append)
  show "released (trace (Reset st')) = released (trace st')"
    by (simp add: Reset_emitted released_append released_deletes)
qed

lemma makeBuffer_first_time_env_ok: "fst (makeBuffer_first_time env_ok si st) = None"
  by (simp add: makeBuffer_first_time_def gl_setup_def setup_overlay_def compile_shader_def
      link_program_def env_ok_def case_prod_beta Let_def)

lemma makeBuffer_env_ok: "fst (makeBuffer env_ok f sz si b st) = None"
proof -
  obtain r st1 where s: "(if first_time st then makeBuffer_first_time env_ok si st else (None, st)) = (r, st1)"
    by (cases "if first_time st then makeBuffer_first_time env_ok si st else (None, st)")
  with makeBuffer_first_time_env_ok [of si st] have "r = None" by (auto split: if_splits)
  with s makeBuffer_setup_eq [of st env_ok si st1 f sz b] show ?thesis
    by (simp add: env_ok_def)
qed

lemma Show_env_ok: "fst (Show env_ok f sz si st) = None"
proof -
  obtain r st' where s: "Show env_ok f sz si st = (r, st')" by (cases "Show env_ok f sz si st")
  then show ?thesis
  proof (cases rule: Show_cases)
    case (raised e b)
    from raised(1) show ?thesis
    proof (cases rule: Show_resolve_cases)
      case hit
      then show ?thesis by simp
    next
      case (miss st2)
      with makeBuffer_env_ok [of f sz si "Show_buffer f st"
          "st\<lparr>buffers := AList.update f (Show_buffer f st) (buffers st)\<rparr>"]
      show ?thesis by simp
    qed
  next
    case (shown b st1)
    with s show ?thesis by simp
  qed
qed

lemma presents_env_ok:
  assumes "presents cs st = (out, st')" "\<forall>c \<in> set cs. fst c = env_ok"
  shows "\<forall>p \<in> set out. fst p = None"
  using assms
proof (induction cs arbitrary: st out st')
  case Nil
  then show ?case by simp
next
  case (Cons c cs)
  obtain env f sz si where c: "c = (env, f, sz, si)" by (cases c)
  obtain r st1 where s: "Show env f sz si st = (r, st1)" by (cases "Show env f sz si st")
  obtain out1 st2 where p: "presents cs st1 = (out1, st2)" by (cases "presents cs st1")
  from Cons.prems(1) c s p have o: "out = (r, emitted st st1) # out1" by simp
  from Cons.prems(2) c have e: "env = env_ok" and rest: "\<forall>c \<in> set cs. fst c = env_ok" by simp_all
  from s e Show_env_ok [of f sz si st] have "r = None" by simp
  with Cons.IH [OF p rest] o show ?case by simp
qed

lemma all_returned: "\<forall>p \<in> set xs. fst p = None \<Longrightarrow> map fst xs = replicate (length xs) None"
  by (induction xs) simp_all

theorem one_frame_delayed_release_witness:
  "map fst (fst (presents example_calls st_init)) = [None, None, None] \<and>
   map handle example_calls = [5, 5, 6] \<and>
   filter is_protocol (snd (fst (presents example_calls st_init) ! 0)) = [SwapBuffers True] \<and>
   filter is_protocol (snd (fst (presents example_calls st_init) ! 1)) = [SwapBuffers True, done_callback 5] \<and>
   filter is_protocol (snd (fst (presents example_calls st_init) ! 2)) = [SwapBuffers True, done_callback 5] \<and>
   last_fd (snd (presents example_calls st_init)) = 6 \<and>
   released (emitted st_init (snd (presents example_calls st_init))) = [5, 5]"
proof -
  have p: "presents example_calls st_init =
      (fst (presents example_calls st_init), snd (presents example_calls st_init))" by simp
  have ok: "\<forall>c \<in> set example_calls. fst c = env_ok" by (simp add: example_calls_def)
  have h: "\<forall>c \<in> set example_calls. 0 \<le> handle c" by (simp add: example_calls_def handle_def)
  note n = presents_env_ok [OF p ok]
  note t = one_frame_delayed_release [OF p n h]
  from t have len: "length (fst (presents example_calls st_init)) = 3"
    by (simp add: example_calls_def)
  from n len have "map fst (fst (presents example_calls st_init)) = [None, None, None]"
    using all_returned [of "fst (presents example_calls st_init)"]
    by (simp add: numeral_3_eq_3)
  moreover from t have "\<forall>k < length example_calls.
      filter is_protocol (snd (fst (presents example_calls st_init) ! k)) =
        SwapBuffers (eglSwapBuffers (fst (example_calls ! k))) #
        (if k = 0 then (if 0 \<le> last_fd st_init then [done_callback (last_fd st_init)] else [])
         else [done_callback (handle (example_calls ! (k - 1)))])" by blast
  then have "filter is_protocol (snd (fst (presents example_calls st_init) ! 0)) = [SwapBuffers True]"
    "filter is_protocol (snd (fst (presents example_calls st_init) ! 1)) = [SwapBuffers True, done_callback 5]"
    "filter is_protocol (snd (fst (presents example_calls st_init) ! 2)) = [SwapBuffers True, done_callback 5]"
    by (simp_all add: example_calls_def handle_def st_init_def env_ok_def)
  moreover from t have "last_fd (snd (presents example_calls st_init)) = 6"
    "released (emitted st_init (snd (presents example_calls st_init))) = [5, 5]"
    by (simp_all add: example_calls_def handle_def st_init_def)
  ultimately show ?thesis by (simp add: example_calls_def handle_def)
qed

subsection \<open>The registry\<close>

lemma Show_resolve_registers:
  assumes "Show_resolve env f sz si st = (None, b, st')" "f \<noteq> -1"
  shows "registered f b st'"
  using assms(1)
proof (cases rule: Show_resolve_cases)
  case hit
  then show ?thesis by simp
next
  case (miss st2)
  from miss(2) have "fd b = f"
    by (cases rule: makeBuffer_cases) simp_all
  with miss(3) assms(2) show ?thesis
    by (simp add: registered_def update_conv')
qed

lemma Show_resolve_keeps:
  assumes "Show_resolve env f' sz si st = (r, b', st')" "registered f b st"
  shows "registered f b st'"
  using assms(1)
proof (cases rule: Show_resolve_cases)
  case hit
  with assms(2) show ?thesis by simp
next
  case (miss st2)
  from miss(1) assms(2) have "f' \<noteq> f"
    by (auto simp: registered_def Show_buffer_def)
  with miss(3) assms(2) show ?thesis
    by (simp add: registered_def update_conv')
qed

lemma Show_buffers:
  assumes "Show env f sz si st = (r, st')"
  shows "\<exists>r' b s. Show_resolve env f sz si st = (r', b, s) \<and> buffers st' = buffers s"
  using assms by (cases rule: Show_cases) auto

lemma Show_keeps:
  assumes "Show env f' sz si st = (r, st')" "registered f b st"
  shows "registered f b st'"
proof -
  from Show_buffers [OF assms(1)] obtain r' b' s
    where s: "Show_resolve env f' sz si st = (r', b', s)" and e: "buffers st' = buffers s"
    by blast
  from Show_resolve_keeps [OF s assms(2)] e show ?thesis by (simp add: registered_def)
qed

lemma SetOverlay_keeps: "registered f b st \<Longrightarrow> registered f b (SetOverlay buf w h st)"
  by (cases buf) (simp_all add: registered_def SetOverlay_def emit_def)

lemma run_keeps:
  assumes "registered f b st" "ReqReset \<notin> set rs"
  shows "registered f b (run rs st)"
  using assms
proof (induction rs st rule: run.induct)
  case (1 st)
  then show ?case by simp
next
  case (2 env f' sz si rs st)
  from Show_keeps [of env f' sz si st "fst (Show env f' sz si st)" "snd (Show env f' sz si st)"] 2
  show ?case by simp
next
  case (3 buf w h rs st)
  with SetOverlay_keeps show ?case by simp
next
  case (4 rs st)
  then show ?case by simp
qed

lemma Show_hit:
  assumes "registered f b st"
  shows "Show env f sz si st = (None, st\<lparr>trace := trace st @ Show_draw env b st, last_fd := f\<rparr>)"
  using Show_resolve_hit [OF assms, of env sz si]
  by (auto simp: Show_def Show_draw_def emit_def Let_def)

text \<open>
  Claim C2. Let a call of \<^verbatim>\<open>Show\<close> for a file descriptor \<open>f\<close> other than -1 return,
  and let any calls of \<^verbatim>\<open>Show\<close> and \<^verbatim>\<open>SetOverlay\<close>, but not \<^verbatim>\<open>Reset\<close>, follow. Then
  resolving \<open>f\<close> again, with any size, any geometry and any answers of the outside,
  returns the \<^verbatim>\<open>Buffer\<close> that the first resolution returned, so the same texture,
  and leaves the state as it is: no entry is added and nothing is imported. A call of
  \<^verbatim>\<open>Show\<close> for \<open>f\<close> then returns, keeps the registry, and appends only the events of
  drawing, with that texture, and of the release protocol.
\<close>

theorem registry_resolution_idempotent:
  assumes "f \<noteq> -1"
    and "Show env1 f sz1 si1 st = (None, st1)"
    and "ReqReset \<notin> set rs"
  shows "\<exists>b s. Show_resolve env1 f sz1 si1 st = (None, b, s) \<and>
    Show_resolve env2 f sz2 si2 (run rs st1) = (None, b, run rs st1) \<and>
    fst (Show env2 f sz2 si2 (run rs st1)) = None \<and>
    buffers (snd (Show env2 f sz2 si2 (run rs st1))) = buffers (run rs st1) \<and>
    emitted (run rs st1) (snd (Show env2 f sz2 si2 (run rs st1))) = Show_draw env2 b (run rs st1)"
  using assms(2)
proof (cases rule: Show_cases)
  case (raised e b)
  then show ?thesis by simp
next
  case (shown b s)
  from Show_resolve_registers [OF shown(1) assms(1)] shown(3)
  have "registered f b st1" by (simp add: registered_def)
  from run_keeps [OF this assms(3)] have reg: "registered f b (run rs st1)" .
  note h = Show_hit [OF reg, of env2 sz2 si2]
  have "emitted (run rs st1) (snd (Show env2 f sz2 si2 (run rs st1))) = Show_draw env2 b (run rs st1)"
    by (rule emitted_append) (simp add: h)
  with shown(1) Show_resolve_hit [OF reg, of env2 sz2 si2] h show ?thesis by simp
qed

theorem registry_resolution_idempotent_witness:
  "(3::int) \<noteq> -1 \<and>
   fst (Show env_ok 3 100 (vga None) st_init) = None \<and>
   ReqReset \<notin> set example_requests \<and>
   fst (Show env_no_import 3 7 (hd1080 (Some Rec709))
     (run example_requests (snd (Show env_ok 3 100 (vga None) st_init)))) = None \<and>
   buffers (snd (Show env_no_import 3 7 (hd1080 (Some Rec709))
     (run example_requests (snd (Show env_ok 3 100 (vga None) st_init))))) =
   buffers (run example_requests (snd (Show env_ok 3 100 (vga None) st_init)))"
proof -
  have a: "(3::int) \<noteq> -1" by simp
  have b: "Show env_ok 3 100 (vga None) st_init = (None, snd (Show env_ok 3 100 (vga None) st_init))"
    using Show_env_ok [of 3 100 "vga None" st_init] by (simp add: prod_eq_iff)
  have c: "ReqReset \<notin> set example_requests" by (simp add: example_requests_def)
  have d: "fst (Show env_ok 3 100 (vga None) st_init) = None" by (rule Show_env_ok)
  from registry_resolution_idempotent [OF a b c, of env_no_import 7 "hd1080 (Some Rec709)"]
  have "fst (Show env_no_import 3 7 (hd1080 (Some Rec709))
      (run example_requests (snd (Show env_ok 3 100 (vga None) st_init)))) = None \<and>
    buffers (snd (Show env_no_import 3 7 (hd1080 (Some Rec709))
      (run example_requests (snd (Show env_ok 3 100 (vga None) st_init))))) =
    buffers (run example_requests (snd (Show env_ok 3 100 (vga None) st_init)))"
    by blast
  with c d show ?thesis by simp
qed

subsection \<open>Reset\<close>

lemma Show_buffer_empty: "buffers st = [] \<Longrightarrow> Show_buffer f st = Buffer_default"
  by (simp add: Show_buffer_def)

lemma Show_first:
  assumes "buffers st = []" "Show env f sz si st = (None, st')"
  shows "\<exists>im. eglCreateImageKHR env (import_attribs f si) = Some im \<and>
    buffers st' = [(f, \<lparr>fd = f, size_bytes = Some sz, info = Some si,
                       texture = Some (glGenTextures env)\<rparr>)] \<and>
    \<not> first_time st' \<and>
    emitted st st' =
      (if first_time st then setup_events env st else []) @
      colour_space_log env (colour_space si) @
      [CreateImageKHR (import_attribs f si) (Some im), GenTextures (glGenTextures env),
       EGLImageTargetTexture2DOES (glGenTextures env) im] @
      DrawVideo (Some (glGenTextures env)) (verts st') #
      (if overlay_present st then [DrawOverlay (overlay_texture st')] else []) @
      SwapBuffers (eglSwapBuffers env) #
      (if 0 \<le> last_fd st then [done_callback (last_fd st)] else [])"
  using assms(2)
proof (cases rule: Show_cases)
  case (raised e b)
  then show ?thesis by simp
next
  case (shown b st1)
  from shown(1) show ?thesis
  proof (cases rule: Show_resolve_cases)
    case hit
    with assms(1) show ?thesis by (simp add: registered_def)
  next
    case (miss st2)
    from miss(2) show ?thesis
    proof (cases rule: makeBuffer_cases)
      case (no_setup e)
      then show ?thesis by simp
    next
      case (failed st3)
      then show ?thesis by simp
    next
      case (imported st3 im)
      from setup_state [OF imported(1)] have
        s3: "trace st3 = trace st @ (if first_time st then setup_events env st else [])"
          "\<not> first_time st3" "overlay_present st3 = overlay_present st" "last_fd st3 = last_fd st"
        by (simp_all add: setup_events_def)
      from imported(4) assms(1) have b: "b = \<lparr>fd = f, size_bytes = Some sz, info = Some si,
                       texture = Some (glGenTextures env)\<rparr>"
        by (simp add: Show_buffer_empty Buffer_default_def)
      from miss(3) imported(5) s3 have st1: "trace st1 = trace st @
          (if first_time st then setup_events env st else []) @
          colour_space_log env (colour_space si) @
          [CreateImageKHR (import_attribs f si) (Some im), GenTextures (glGenTextures env),
           EGLImageTargetTexture2DOES (glGenTextures env) im]"
        "buffers st1 = [(f, b)]" "\<not> first_time st1" "overlay_present st1 = overlay_present st"
        "last_fd st1 = last_fd st"
        using assms(1) by simp_all
      from shown(3) have v: "verts st' = verts st1" "overlay_texture st' = overlay_texture st1" by simp_all
      from shown(3) st1 have "trace st' = trace st @
          ((if first_time st then setup_events env st else []) @
          colour_space_log env (colour_space si) @
          [CreateImageKHR (import_attribs f si) (Some im), GenTextures (glGenTextures env),
           EGLImageTargetTexture2DOES (glGenTextures env) im] @
          DrawVideo (Some (glGenTextures env)) (verts st') #
          (if overlay_present st then [DrawOverlay (overlay_texture st')] else []) @
          SwapBuffers (eglSwapBuffers env) #
          (if 0 \<le> last_fd st then [done_callback (last_fd st)] else []))"
        by (simp add: Show_draw_def b v)
      from emitted_append [OF this] shown(3) st1 b imported(2) show ?thesis by simp
    qed
  qed
qed

lemma Reset_fold_fields:
  "preview_width (fold (\<lambda>it. emit (DeleteTextures (texture (snd it)))) xs s) = preview_width s \<and>
   preview_height (fold (\<lambda>it. emit (DeleteTextures (texture (snd it)))) xs s) = preview_height s \<and>
   overlay_present (fold (\<lambda>it. emit (DeleteTextures (texture (snd it)))) xs s) = overlay_present s"
  by (induction xs arbitrary: s) (simp_all add: emit_def)

lemma Reset_fields:
  "buffers (Reset st) = [] \<and> last_fd (Reset st) = -1 \<and> first_time (Reset st) \<and>
   preview_width (Reset st) = preview_width st \<and> preview_height (Reset st) = preview_height st \<and>
   overlay_present (Reset st) = overlay_present st"
  by (simp add: Reset_def Let_def Reset_fold_fields)

text \<open>
  Claim C3. \<^verbatim>\<open>Reset\<close> empties the registry, sets \<open>last_fd\<close> to -1 and \<open>first_time\<close> to
  true. What it appends to the trace is one \<^verbatim>\<open>glDeleteTextures\<close> for each entry the
  registry had, and so no report that a file descriptor is free. The next \<^verbatim>\<open>Show\<close>
  that returns, for any file descriptor, seen before or not, has run the setup again
  and imported the buffer: the registry is then the one new entry, whose texture is
  the name that \<^verbatim>\<open>glGenTextures\<close> just gave, the video quad is drawn with that
  texture, and no file descriptor is reported free by that call.
\<close>

theorem reset_postconditions:
  "buffers (Reset st) = [] \<and> last_fd (Reset st) = -1 \<and> first_time (Reset st) \<and>
   trace (Reset st) = trace st @ emitted st (Reset st) \<and>
   emitted st (Reset st) =
     map (\<lambda>it. DeleteTextures (texture (snd it))) (sort_key fst (buffers st)) \<and>
   set (emitted st (Reset st)) = (\<lambda>it. DeleteTextures (texture (snd it))) ` set (buffers st) \<and>
   released (emitted st (Reset st)) = [] \<and>
   (Show env f sz si (Reset st) = (None, st') \<longrightarrow>
      (\<exists>im. eglCreateImageKHR env (import_attribs f si) = Some im \<and>
         CreateImageKHR (import_attribs f si) (Some im) \<in> set (emitted (Reset st) st')) \<and>
      set (setup_events env st) \<subseteq> set (emitted (Reset st) st') \<and>
      buffers st' = [(f, \<lparr>fd = f, size_bytes = Some sz, info = Some si,
                         texture = Some (glGenTextures env)\<rparr>)] \<and>
      DrawVideo (Some (glGenTextures env)) (verts st') \<in> set (emitted (Reset st) st') \<and>
      released (emitted (Reset st) st') = [] \<and>
      \<not> first_time st')"
proof -
  have e: "emitted st (Reset st) =
     map (\<lambda>it. DeleteTextures (texture (snd it))) (sort_key fst (buffers st))"
    by (rule emitted_append) (rule Reset_emitted)
  have "Show env f sz si (Reset st) = (None, st') \<longrightarrow>
      (\<exists>im. eglCreateImageKHR env (import_attribs f si) = Some im \<and>
         CreateImageKHR (import_attribs f si) (Some im) \<in> set (emitted (Reset st) st')) \<and>
      set (setup_events env st) \<subseteq> set (emitted (Reset st) st') \<and>
      buffers st' = [(f, \<lparr>fd = f, size_bytes = Some sz, info = Some si,
                         texture = Some (glGenTextures env)\<rparr>)] \<and>
      DrawVideo (Some (glGenTextures env)) (verts st') \<in> set (emitted (Reset st) st') \<and>
      released (emitted (Reset st) st') = [] \<and>
      \<not> first_time st'"
  proof
    assume s: "Show env f sz si (Reset st) = (None, st')"
    from Reset_fields [of st] have b: "buffers (Reset st) = []" by simp
    from Show_first [OF b s] Reset_fields [of st] obtain im where
      im: "eglCreateImageKHR env (import_attribs f si) = Some im"
      and bs: "buffers st' = [(f, \<lparr>fd = f, size_bytes = Some sz, info = Some si,
                       texture = Some (glGenTextures env)\<rparr>)]"
      and ft: "\<not> first_time st'"
      and em: "emitted (Reset st) st' =
        setup_events env (Reset st) @
        colour_space_log env (colour_space si) @
        [CreateImageKHR (import_attribs f si) (Some im), GenTextures (glGenTextures env),
         EGLImageTargetTexture2DOES (glGenTextures env) im] @
        DrawVideo (Some (glGenTextures env)) (verts st') #
        (if overlay_present st then [DrawOverlay (overlay_texture st')] else []) @
        [SwapBuffers (eglSwapBuffers env)]"
      by auto
    from Reset_fields [of st] have se: "setup_events env (Reset st) = setup_events env st"
      by (simp add: setup_events_def)
    have "released (emitted (Reset st) st') = []"
      by (simp add: em released_append setup_events_def colour_space_log_def)
    with im bs ft em se show "(\<exists>im. eglCreateImageKHR env (import_attribs f si) = Some im \<and>
         CreateImageKHR (import_attribs f si) (Some im) \<in> set (emitted (Reset st) st')) \<and>
      set (setup_events env st) \<subseteq> set (emitted (Reset st) st') \<and>
      buffers st' = [(f, \<lparr>fd = f, size_bytes = Some sz, info = Some si,
                         texture = Some (glGenTextures env)\<rparr>)] \<and>
      DrawVideo (Some (glGenTextures env)) (verts st') \<in> set (emitted (Reset st) st') \<and>
      released (emitted (Reset st) st') = [] \<and>
      \<not> first_time st'"
      by auto
  qed
  with e Reset_fields [of st] Reset_emitted [of st] show ?thesis
    by (simp add: released_deletes)
qed

theorem reset_postconditions_witness:
  "fst (Show env_ok 3 7 (hd1080 None) (Reset (snd (Show env_ok 3 100 (vga None) st_init)))) = None \<and>
   buffers (Reset (snd (Show env_ok 3 100 (vga None) st_init))) = [] \<and>
   buffers (snd (Show env_ok 3 7 (hd1080 None) (Reset (snd (Show env_ok 3 100 (vga None) st_init))))) =
     [(3, \<lparr>fd = 3, size_bytes = Some 7, info = Some (hd1080 None), texture = Some 10\<rparr>)] \<and>
   released (emitted (Reset (snd (Show env_ok 3 100 (vga None) st_init)))
     (snd (Show env_ok 3 7 (hd1080 None) (Reset (snd (Show env_ok 3 100 (vga None) st_init)))))) = []"
proof -
  define s where "s = snd (Show env_ok 3 100 (vga None) st_init)"
  define s' where "s' = snd (Show env_ok 3 7 (hd1080 None) (Reset s))"
  have r: "fst (Show env_ok 3 7 (hd1080 None) (Reset s)) = None" by (rule Show_env_ok)
  then have h: "Show env_ok 3 7 (hd1080 None) (Reset s) = (None, s')"
    by (simp add: s'_def prod_eq_iff)
  from reset_postconditions [of s env_ok 3 7 "hd1080 None" s'] h
  have "buffers (Reset s) = [] \<and>
    buffers s' = [(3, \<lparr>fd = 3, size_bytes = Some 7, info = Some (hd1080 None),
                         texture = Some (glGenTextures env_ok)\<rparr>)] \<and>
    released (emitted (Reset s) s') = []"
    by blast
  with r show ?thesis by (simp add: s_def s'_def env_ok_def)
qed

subsection \<open>A failed import\<close>

lemma emitted_cong: "trace a = trace a' \<Longrightarrow> trace b = trace b' \<Longrightarrow> emitted a b = emitted a' b'"
  by (simp add: emitted_def)

lemma setup_events_imports: "filter is_import (setup_events env st) = []"
  by (simp add: setup_events_def is_import_def)

lemma colour_space_log_imports: "filter is_import (colour_space_log env cs) = []"
  by (simp add: colour_space_log_def is_import_def)

lemma Show_draw_imports: "filter is_import (Show_draw env b st) = []"
  by (simp add: Show_draw_def is_import_def)

lemma makeBuffer_imports:
  assumes "makeBuffer env f sz si b st = (r, b', st')"
  shows "\<exists>ims. filter is_import (emitted st st') = map (CreateImageKHR (import_attribs f si)) ims \<and>
    length ims \<le> 1 \<and> (r = Some (ImportFailure f)) = (None \<in> set ims)"
  using assms
proof (cases rule: makeBuffer_cases)
  case (no_setup e)
  from makeBuffer_first_time_error [OF no_setup(2)]
  have "emitted st st' = []" "e \<noteq> ImportFailure f"
    by (simp_all add: emitted_def setup_failure_def)
  with no_setup(3) have "filter is_import (emitted st st') = map (CreateImageKHR (import_attribs f si)) [] \<and>
    length ([] :: EGLImage option list) \<le> 1 \<and> (r = Some (ImportFailure f)) = (None \<in> set ([] :: EGLImage option list))"
    by simp
  then show ?thesis by blast
next
  case (failed st1)
  from setup_state [OF failed(1)] failed(5)
  have "trace st' = trace st @ (if first_time st then setup_events env st else []) @
      colour_space_log env (colour_space si) @ [CreateImageKHR (import_attribs f si) None]"
    by simp
  from emitted_append [OF this] failed(3)
  have "filter is_import (emitted st st') = map (CreateImageKHR (import_attribs f si)) [None] \<and>
    length [None :: EGLImage option] \<le> 1 \<and> (r = Some (ImportFailure f)) = (None \<in> set [None :: EGLImage option])"
    by (simp add: setup_events_imports colour_space_log_imports is_import_def)
  then show ?thesis by blast
next
  case (imported st1 im)
  from setup_state [OF imported(1)] imported(5)
  have "trace st' = trace st @ (if first_time st then setup_events env st else []) @
      colour_space_log env (colour_space si) @
      [CreateImageKHR (import_attribs f si) (Some im), GenTextures (glGenTextures env),
       EGLImageTargetTexture2DOES (glGenTextures env) im]"
    by simp
  from emitted_append [OF this] imported(3)
  have "filter is_import (emitted st st') = map (CreateImageKHR (import_attribs f si)) [Some im] \<and>
    length [Some im] \<le> 1 \<and> (r = Some (ImportFailure f)) = (None \<in> set [Some im])"
    by (simp add: setup_events_imports colour_space_log_imports is_import_def)
  then show ?thesis by blast
qed

lemma Show_resolve_imports:
  assumes "Show_resolve env f sz si st = (r, b', st')"
  shows "\<exists>ims. filter is_import (emitted st st') = map (CreateImageKHR (import_attribs f si)) ims \<and>
    length ims \<le> 1 \<and> (r = Some (ImportFailure f)) = (None \<in> set ims)"
  using assms
proof (cases rule: Show_resolve_cases)
  case hit
  then have "filter is_import (emitted st st') = map (CreateImageKHR (import_attribs f si)) [] \<and>
    length ([] :: EGLImage option list) \<le> 1 \<and> (r = Some (ImportFailure f)) = (None \<in> set ([] :: EGLImage option list))"
    by (simp add: emitted_same)
  then show ?thesis by blast
next
  case (miss st2)
  have "emitted st st' = emitted (st\<lparr>buffers := AList.update f (Show_buffer f st) (buffers st)\<rparr>) st2"
    by (rule emitted_cong) (simp_all add: miss(3))
  with makeBuffer_imports [OF miss(2)] show ?thesis by simp
qed

lemma Show_imports:
  assumes "Show env f sz si st = (r, st')"
  shows "\<exists>ims. filter is_import (emitted st st') = map (CreateImageKHR (import_attribs f si)) ims \<and>
    length ims \<le> 1 \<and> (r = Some (ImportFailure f)) = (None \<in> set ims)"
  using assms
proof (cases rule: Show_cases)
  case (raised e b)
  with Show_resolve_imports [OF raised(1)] show ?thesis by simp
next
  case (shown b st1)
  note fr = Show_resolve_frame [OF shown(1)]
  from fr shown(3) have "trace st' = trace st @ emitted st st1 @ Show_draw env b st1" by simp
  from emitted_append [OF this]
  have "filter is_import (emitted st st') = filter is_import (emitted st st1)"
    by (simp add: Show_draw_imports)
  with Show_resolve_imports [OF shown(1)] shown(2) show ?thesis by simp
qed

lemma failed_import_member:
  assumes "filter is_import evs = map (CreateImageKHR a) ims"
  shows "(\<exists>a'. CreateImageKHR a' None \<in> set evs) = (None \<in> set ims)"
proof -
  have "(\<exists>a'. CreateImageKHR a' None \<in> set evs) = (\<exists>a'. CreateImageKHR a' None \<in> set (filter is_import evs))"
    by (simp add: is_import_def)
  also have "\<dots> = (None \<in> set ims)" by (auto simp: assms)
  finally show ?thesis .
qed

text \<open>
  Claim C7. \<^verbatim>\<open>makeBuffer\<close> throws the exception with the message "failed to import fd"
  followed by the file descriptor in decimal exactly when it has called
  \<^verbatim>\<open>eglCreateImageKHR\<close> and got the null image. The same holds of \<^verbatim>\<open>Show\<close>, which this
  exception leaves at once: a call of \<^verbatim>\<open>Show\<close> makes at most one import call, and when
  it throws it has neither swapped the buffers nor reported a file descriptor free,
  and \<open>last_fd\<close> is what it was.
\<close>

theorem import_failure_raised:
  "(fst (makeBuffer env f sz si b st) = Some (runtime_error (''failed to import fd '' @ to_string f))) =
     (\<exists>a. CreateImageKHR a None \<in> set (emitted st (snd (snd (makeBuffer env f sz si b st))))) \<and>
   (fst (Show env f sz si st) = Some (runtime_error (''failed to import fd '' @ to_string f))) =
     (\<exists>a. CreateImageKHR a None \<in> set (emitted st (snd (Show env f sz si st)))) \<and>
   length (filter is_import (emitted st (snd (Show env f sz si st)))) \<le> 1 \<and>
   (fst (Show env f sz si st) \<noteq> None \<longrightarrow>
      filter is_protocol (emitted st (snd (Show env f sz si st))) = [] \<and>
      last_fd (snd (Show env f sz si st)) = last_fd st)"
proof (intro conjI impI)
  obtain r b' st' where m: "makeBuffer env f sz si b st = (r, b', st')"
    by (cases "makeBuffer env f sz si b st")
  from makeBuffer_imports [OF m] obtain ims where
    "filter is_import (emitted st st') = map (CreateImageKHR (import_attribs f si)) ims"
    "(r = Some (ImportFailure f)) = (None \<in> set ims)" by blast
  with failed_import_member [of "emitted st st'" "import_attribs f si" ims] m
  show "(fst (makeBuffer env f sz si b st) = Some (runtime_error (''failed to import fd '' @ to_string f))) =
     (\<exists>a. CreateImageKHR a None \<in> set (emitted st (snd (snd (makeBuffer env f sz si b st)))))"
    by (simp add: ImportFailure_def)
next
  obtain r st' where s: "Show env f sz si st = (r, st')" by (cases "Show env f sz si st")
  from Show_imports [OF s] obtain ims where i:
    "filter is_import (emitted st st') = map (CreateImageKHR (import_attribs f si)) ims"
    "length ims \<le> 1"
    "(r = Some (ImportFailure f)) = (None \<in> set ims)" by blast
  with failed_import_member [of "emitted st st'" "import_attribs f si" ims] s
  show "(fst (Show env f sz si st) = Some (runtime_error (''failed to import fd '' @ to_string f))) =
     (\<exists>a. CreateImageKHR a None \<in> set (emitted st (snd (Show env f sz si st))))"
    by (simp add: ImportFailure_def)
  from i s show "length (filter is_import (emitted st (snd (Show env f sz si st)))) \<le> 1"
    by simp
  {
    assume "fst (Show env f sz si st) \<noteq> None"
    with s obtain e where "r = Some e" by auto
    with Show_protocol [OF s] s
    show "filter is_protocol (emitted st (snd (Show env f sz si st))) = []"
      "last_fd (snd (Show env f sz si st)) = last_fd st"
      by simp_all
  }
qed

lemma example_import_fails:
  "fst (Show env_no_import 3 100 (vga None) st_init) = Some (runtime_error ''failed to import fd 3'')"
  by (simp add: Show_def Show_resolve_def makeBuffer_def makeBuffer_first_time_def gl_setup_def
      setup_overlay_def compile_shader_def link_program_def get_colour_space_info_def emit_def
      env_no_import_def env_ok_def st_init_def vga_def Buffer_default_def to_string_def
      case_prod_beta Let_def)

theorem import_failure_raised_witness:
  "fst (Show env_no_import 3 100 (vga None) st_init) = Some (runtime_error ''failed to import fd 3'') \<and>
   filter is_protocol (emitted st_init (snd (Show env_no_import 3 100 (vga None) st_init))) = [] \<and>
   last_fd (snd (Show env_no_import 3 100 (vga None) st_init)) = -1"
proof -
  note h = example_import_fails
  then have "fst (Show env_no_import 3 100 (vga None) st_init) \<noteq> None" by simp
  with import_failure_raised [of env_no_import 3 100 "vga None" Buffer_default st_init]
  have "filter is_protocol (emitted st_init (snd (Show env_no_import 3 100 (vga None) st_init))) = [] \<and>
    last_fd (snd (Show env_no_import 3 100 (vga None) st_init)) = last_fd st_init"
    by blast
  with h show ?thesis by (simp add: st_init_def)
qed

subsection \<open>A failed swap\<close>

lemma compile_shader_swap:
  "compile_shader (env\<lparr>eglSwapBuffers := x\<rparr>) t s = compile_shader env t s"
  by (simp add: compile_shader_def)

lemma link_program_swap:
  "link_program (env\<lparr>eglSwapBuffers := x\<rparr>) a b = link_program env a b"
  by (simp add: link_program_def)

lemma setup_overlay_swap: "setup_overlay (env\<lparr>eglSwapBuffers := x\<rparr>) st = setup_overlay env st"
  by (simp add: setup_overlay_def compile_shader_swap link_program_swap split: sum.splits)

lemma gl_setup_swap: "gl_setup (env\<lparr>eglSwapBuffers := x\<rparr>) w h ww wh st = gl_setup env w h ww wh st"
  by (simp add: gl_setup_def compile_shader_swap link_program_swap split: prod.splits sum.splits)

lemma makeBuffer_first_time_swap:
  "makeBuffer_first_time (env\<lparr>eglSwapBuffers := x\<rparr>) si st = makeBuffer_first_time env si st"
  by (simp add: makeBuffer_first_time_def gl_setup_swap setup_overlay_swap split: prod.splits option.splits)

lemma get_colour_space_info_swap:
  "get_colour_space_info (env\<lparr>eglSwapBuffers := x\<rparr>) cs st = get_colour_space_info env cs st"
  by (simp add: get_colour_space_info_def)

lemma makeBuffer_swap:
  "makeBuffer (env\<lparr>eglSwapBuffers := x\<rparr>) f sz si b st = makeBuffer env f sz si b st"
  by (simp add: makeBuffer_def makeBuffer_first_time_swap get_colour_space_info_swap Let_def
      split: prod.splits option.splits)

lemma Show_resolve_swap:
  "Show_resolve (env\<lparr>eglSwapBuffers := x\<rparr>) f sz si st = Show_resolve env f sz si st"
  by (simp add: Show_resolve_def makeBuffer_swap split: prod.splits option.splits)

lemma Show_unfold:
  "Show env f sz si st =
     (case Show_resolve env f sz si st of
        (Some e, b, st1) \<Rightarrow> (Some e, st1)
      | (None, b, st1) \<Rightarrow> (None, st1\<lparr>trace := trace st1 @ Show_draw env b st1, last_fd := f\<rparr>))"
  by (auto simp: Show_def Show_draw_def emit_def Let_def split: prod.splits option.splits)

lemma Show_draw_log: "filter is_log (Show_draw env b st) = []"
  by (simp add: Show_draw_def is_log_def)

lemma Show_draw_released:
  "released (Show_draw env b st) = (if 0 \<le> last_fd st then [last_fd st] else [])"
  by (simp add: Show_draw_def)

lemma Show_swap:
  "fst (Show (env\<lparr>eglSwapBuffers := x\<rparr>) f sz si st) = fst (Show env f sz si st) \<and>
   (snd (Show (env\<lparr>eglSwapBuffers := x\<rparr>) f sz si st))\<lparr>trace := []\<rparr> =
     (snd (Show env f sz si st))\<lparr>trace := []\<rparr> \<and>
   filter is_log (emitted st (snd (Show (env\<lparr>eglSwapBuffers := x\<rparr>) f sz si st))) =
     filter is_log (emitted st (snd (Show env f sz si st))) \<and>
   released (emitted st (snd (Show (env\<lparr>eglSwapBuffers := x\<rparr>) f sz si st))) =
     released (emitted st (snd (Show env f sz si st)))"
proof -
  obtain r b st1 where s: "Show_resolve env f sz si st = (r, b, st1)"
    by (cases "Show_resolve env f sz si st")
  note fr = Show_resolve_frame [OF s]
  show ?thesis
  proof (cases r)
    case (Some e)
    with s show ?thesis by (simp add: Show_unfold Show_resolve_swap)
  next
    case None
    have e: "emitted st (st1\<lparr>trace := trace st1 @ Show_draw env' b st1, last_fd := f\<rparr>) =
        emitted st st1 @ Show_draw env' b st1" for env'
      by (rule emitted_append) (simp add: fr)
    from None s show ?thesis
      by (simp add: Show_unfold Show_resolve_swap e Show_draw_log Show_draw_released
          released_append)
  qed
qed

text \<open>
  Claim C8, as amended. When \<^verbatim>\<open>eglSwapBuffers\<close> fails, \<^verbatim>\<open>Show\<close> does not look at the
  result: compared with the same call where the swap succeeds, it throws the same
  exception or none, logs the same lines, reports the same file descriptors as free
  and ends in the same state but for the result that the trace records for the swap.
  So when it returns, the file descriptor that \<open>last_fd\<close> held is reported free after
  the swap and the one just shown is stored in \<open>last_fd\<close>. Nothing is logged about the
  failure.
\<close>

theorem present_failure_ignored:
  "fst (Show (env\<lparr>eglSwapBuffers := False\<rparr>) f sz si st) =
     fst (Show (env\<lparr>eglSwapBuffers := True\<rparr>) f sz si st) \<and>
   (snd (Show (env\<lparr>eglSwapBuffers := False\<rparr>) f sz si st))\<lparr>trace := []\<rparr> =
     (snd (Show (env\<lparr>eglSwapBuffers := True\<rparr>) f sz si st))\<lparr>trace := []\<rparr> \<and>
   filter is_log (emitted st (snd (Show (env\<lparr>eglSwapBuffers := False\<rparr>) f sz si st))) =
     filter is_log (emitted st (snd (Show (env\<lparr>eglSwapBuffers := True\<rparr>) f sz si st))) \<and>
   released (emitted st (snd (Show (env\<lparr>eglSwapBuffers := False\<rparr>) f sz si st))) =
     released (emitted st (snd (Show (env\<lparr>eglSwapBuffers := True\<rparr>) f sz si st))) \<and>
   (fst (Show (env\<lparr>eglSwapBuffers := False\<rparr>) f sz si st) = None \<longrightarrow>
      last_fd (snd (Show (env\<lparr>eglSwapBuffers := False\<rparr>) f sz si st)) = f \<and>
      filter is_protocol (emitted st (snd (Show (env\<lparr>eglSwapBuffers := False\<rparr>) f sz si st))) =
        SwapBuffers False # (if 0 \<le> last_fd st then [done_callback (last_fd st)] else []))"
proof -
  have "fst (Show (env\<lparr>eglSwapBuffers := False\<rparr>) f sz si st) = None \<longrightarrow>
      last_fd (snd (Show (env\<lparr>eglSwapBuffers := False\<rparr>) f sz si st)) = f \<and>
      filter is_protocol (emitted st (snd (Show (env\<lparr>eglSwapBuffers := False\<rparr>) f sz si st))) =
        SwapBuffers False # (if 0 \<le> last_fd st then [done_callback (last_fd st)] else [])"
  proof
    assume n: "fst (Show (env\<lparr>eglSwapBuffers := False\<rparr>) f sz si st) = None"
    obtain r st' where s: "Show (env\<lparr>eglSwapBuffers := False\<rparr>) f sz si st = (r, st')"
      by (cases "Show (env\<lparr>eglSwapBuffers := False\<rparr>) f sz si st")
    with n have "r = None" by simp
    with Show_protocol [OF s] s
    show "last_fd (snd (Show (env\<lparr>eglSwapBuffers := False\<rparr>) f sz si st)) = f \<and>
      filter is_protocol (emitted st (snd (Show (env\<lparr>eglSwapBuffers := False\<rparr>) f sz si st))) =
        SwapBuffers False # (if 0 \<le> last_fd st then [done_callback (last_fd st)] else [])"
      by simp
  qed
  with Show_swap [where env = env and x = False and f = f and sz = sz and si = si and st = st]
    Show_swap [where env = env and x = True and f = f and sz = sz and si = si and st = st]
  show ?thesis by simp
qed

lemma example_shown_once:
  "last_fd (snd (Show env_ok 3 100 (vga None) st_init)) = 3"
proof -
  have "Show env_ok 3 100 (vga None) st_init = (None, snd (Show env_ok 3 100 (vga None) st_init))"
    using Show_env_ok [of 3 100 "vga None" st_init] by (simp add: prod_eq_iff)
  from Show_protocol [OF this] show ?thesis by simp
qed

theorem present_failure_ignored_witness:
  "fst (Show (env_ok\<lparr>eglSwapBuffers := False\<rparr>) 4 100 (vga None)
      (snd (Show env_ok 3 100 (vga None) st_init))) = None \<and>
   last_fd (snd (Show (env_ok\<lparr>eglSwapBuffers := False\<rparr>) 4 100 (vga None)
      (snd (Show env_ok 3 100 (vga None) st_init)))) = 4 \<and>
   filter is_protocol (emitted (snd (Show env_ok 3 100 (vga None) st_init))
      (snd (Show (env_ok\<lparr>eglSwapBuffers := False\<rparr>) 4 100 (vga None)
        (snd (Show env_ok 3 100 (vga None) st_init))))) = [SwapBuffers False, done_callback 3]"
proof -
  define s where "s = snd (Show env_ok 3 100 (vga None) st_init)"
  have t: "env_ok\<lparr>eglSwapBuffers := True\<rparr> = env_ok" by (simp add: env_ok_def)
  note p = present_failure_ignored [of env_ok 4 100 "vga None" s]
  from p have n: "fst (Show (env_ok\<lparr>eglSwapBuffers := False\<rparr>) 4 100 (vga None) s) = None"
    by (simp add: t Show_env_ok)
  with p have "last_fd (snd (Show (env_ok\<lparr>eglSwapBuffers := False\<rparr>) 4 100 (vga None) s)) = 4 \<and>
      filter is_protocol (emitted s (snd (Show (env_ok\<lparr>eglSwapBuffers := False\<rparr>) 4 100 (vga None) s))) =
        SwapBuffers False # (if 0 \<le> last_fd s then [done_callback (last_fd s)] else [])"
    by blast
  with n show ?thesis by (simp add: s_def example_shown_once)
qed

lemma example_swap_fails:
  "trace (snd (Show env_swap_fails 3 100 (vga (Some Smpte170m)) st_init)) =
     [GenTextures 9, TexImage2D 9 256 192 None,
      CreateImageKHR (import_attribs 3 (vga (Some Smpte170m))) (Some 1),
      GenTextures 10, EGLImageTargetTexture2DOES 10 1,
      DrawVideo (Some 10) [- 1, - 1, 1, - 1, 1, 1, - 1, 1],
      SwapBuffers False]"
  by (simp add: Show_def Show_resolve_def makeBuffer_def makeBuffer_first_time_def gl_setup_def
      setup_overlay_def compile_shader_def link_program_def get_colour_space_info_def emit_def
      gl_setup_factors_def import_attribs_def colour_space_table_def
      env_swap_fails_def env_ok_def st_init_def vga_def Buffer_default_def
      case_prod_beta Let_def)

text \<open>
  Claim C8 as it is written fails: here the swap fails, \<^verbatim>\<open>Show\<close> returns, and the trace
  has the failed swap but no log line.
\<close>

theorem present_failure_logged_counterexample:
  "\<not> eglSwapBuffers env_swap_fails \<and>
   fst (Show env_swap_fails 3 100 (vga (Some Smpte170m)) st_init) = None \<and>
   SwapBuffers False \<in> set (trace (snd (Show env_swap_fails 3 100 (vga (Some Smpte170m)) st_init))) \<and>
   filter is_log (trace (snd (Show env_swap_fails 3 100 (vga (Some Smpte170m)) st_init))) = []"
proof -
  have "fst (Show env_swap_fails 3 100 (vga (Some Smpte170m)) st_init) =
      fst (Show env_ok 3 100 (vga (Some Smpte170m)) st_init)"
    using Show_swap [where env = env_ok and x = False and f = 3 and sz = 100
        and si = "vga (Some Smpte170m)" and st = st_init]
    by (simp add: env_swap_fails_def)
  then show ?thesis
    by (simp add: Show_env_ok example_swap_fails is_log_def) (simp add: env_swap_fails_def env_ok_def)
qed

subsection \<open>The size of the overlay texture\<close>

text \<open>
  Claim C9, as amended. The first call of \<^verbatim>\<open>Show\<close> on a preview that is new or has been
  reset, when it returns, has allocated one texture without data, the overlay texture
  that \<^verbatim>\<open>setup_overlay\<close> has just generated, at a quarter of the width and of the height
  of the preview window (\<^verbatim>\<open>width_ / 4\<close> and \<^verbatim>\<open>height_ / 4\<close>, in \<^verbatim>\<open>int\<close> division). The
  size of the frame plays no part.
\<close>

theorem overlay_default_size:
  assumes "first_time st" and "buffers st = []" and "Show env f sz si st = (None, st')"
  shows "filter is_teximage (emitted st st') =
    [TexImage2D (glGenTextures_overlay env) (preview_width st sdiv 4) (preview_height st sdiv 4) None]"
proof -
  from Show_first [OF assms(2,3)] assms(1) obtain im where
    "emitted st st' =
      setup_events env st @
      colour_space_log env (colour_space si) @
      [CreateImageKHR (import_attribs f si) (Some im), GenTextures (glGenTextures env),
       EGLImageTargetTexture2DOES (glGenTextures env) im] @
      DrawVideo (Some (glGenTextures env)) (verts st') #
      (if overlay_present st then [DrawOverlay (overlay_texture st')] else []) @
      SwapBuffers (eglSwapBuffers env) #
      (if 0 \<le> last_fd st then [done_callback (last_fd st)] else [])"
    by auto
  then show ?thesis
    by (simp add: setup_events_def colour_space_log_def is_teximage_def)
qed

lemma example_first_Show:
  "first_time st_init \<and> buffers st_init = [] \<and> trace st_init = [] \<and>
   preview_width st_init = 1024 \<and> preview_height st_init = 768 \<and>
   Show env_ok 3 100 (vga None) st_init = (None, snd (Show env_ok 3 100 (vga None) st_init))"
  using Show_env_ok [of 3 100 "vga None" st_init] by (simp add: st_init_def prod_eq_iff)

theorem overlay_default_size_witness:
  "first_time st_init \<and> buffers st_init = [] \<and>
   fst (Show env_ok 3 100 (vga None) st_init) = None \<and>
   filter is_teximage (emitted st_init (snd (Show env_ok 3 100 (vga None) st_init))) =
     [TexImage2D 9 256 192 None]"
proof -
  from example_first_Show have a: "first_time st_init" and b: "buffers st_init = []"
    and c: "Show env_ok 3 100 (vga None) st_init = (None, snd (Show env_ok 3 100 (vga None) st_init))"
    by simp_all
  from overlay_default_size [OF a b c] a b Show_env_ok [of 3 100 "vga None" st_init]
  show ?thesis by (simp add: st_init_def env_ok_def)
qed

text \<open>
  Claim C9 as it is written fails: a first frame of 640 by 480 in a window of 1024 by
  768 gets an overlay texture of 256 by 192, not of 160 by 120.
\<close>

theorem overlay_quarter_of_frame_counterexample:
  "filter is_teximage (emitted st_init (snd (Show env_ok 3 100 (vga None) st_init))) =
     [TexImage2D 9 256 192 None] \<and>
   sint (width (vga None)) sdiv 4 = 160 \<and> sint (height (vga None)) sdiv 4 = 120"
proof -
  have "trace (snd (Show env_ok 3 100 (vga None) st_init)) = trace st_init @
     [GenTextures 9, TexImage2D 9 256 192 None,
      LOG 1 ''EglPreview: unexpected colour space Unknown'',
      CreateImageKHR (import_attribs 3 (vga None)) (Some 1),
      GenTextures 10, EGLImageTargetTexture2DOES 10 1,
      DrawVideo (Some 10) [- 1, - 1, 1, - 1, 1, 1, - 1, 1],
      SwapBuffers True]"
    by (simp add: Show_def Show_resolve_def makeBuffer_def makeBuffer_first_time_def gl_setup_def
      setup_overlay_def compile_shader_def link_program_def get_colour_space_info_def emit_def
      gl_setup_factors_def import_attribs_def colour_space_table_def
      env_ok_def st_init_def vga_def Buffer_default_def case_prod_beta Let_def)
  from emitted_append [OF this] show ?thesis
    by (simp add: is_teximage_def vga_def)
qed

subsection \<open>The vertex array\<close>

lemma gl_setup_factors_fit:
  assumes "0 < w" "0 < h" "0 < window_width" "0 < window_height"
    and "gl_setup_factors w h window_width window_height = (w_factor, h_factor)"
  shows "max w_factor h_factor = 1 \<and>
    w_factor / h_factor = (real_of_int w / real_of_int window_width) / (real_of_int h / real_of_int window_height)"
proof -
  define a where "a = real_of_int w / real_of_int window_width"
  define b where "b = real_of_int h / real_of_int window_height"
  from assms(1-4) have pos: "0 < a" "0 < b" by (simp_all add: a_def b_def)
  then have m: "0 < max a b" by simp
  from assms(5) have wf: "w_factor = a / max a b" and hf: "h_factor = b / max a b"
    by (simp_all add: gl_setup_factors_def Let_def a_def b_def)
  have "max (a / max a b) (b / max a b) = max a b / max a b"
  proof (cases "a \<le> b")
    case True
    with pos show ?thesis by (simp add: max_def divide_le_cancel)
  next
    case False
    with pos show ?thesis by (simp add: max_def divide_le_cancel)
  qed
  with m have "max w_factor h_factor = 1" by (simp add: wf hf)
  moreover from m pos have "w_factor / h_factor = a / b" by (simp add: wf hf)
  ultimately show ?thesis by (simp add: a_def b_def)
qed

lemma gl_setup_first:
  assumes "gl_setup env w h ww wh st = (None, st')" "gl_setup_verts st = None"
    and "gl_setup_factors w h ww wh = (w_factor, h_factor)"
  shows "verts st' = [- w_factor, - h_factor, w_factor, - h_factor, w_factor, h_factor, - w_factor, h_factor]"
  using assms by (auto simp: gl_setup_def Let_def split: sum.splits)

lemma gl_setup_later:
  assumes "gl_setup env w h ww wh st = (None, st')" "gl_setup_verts st = Some v"
  shows "verts st' = v \<and> gl_setup_verts st' = Some v"
  using assms by (auto simp: gl_setup_def Let_def split: sum.splits prod.splits)

text \<open>
  Claim C5 does not hold of the code. The array \<^verbatim>\<open>verts\<close> of \<^verbatim>\<open>gl_setup\<close> is
  \<^verbatim>\<open>const static\<close>, so it keeps the factors of the first frame the process ever set up:
  a frame of 640 by 480 in a window of 1024 by 768 has the factors 1 and 1, and after
  a \<^verbatim>\<open>Reset\<close> a frame of 1920 by 1080, whose factors are 1 and 3/4, is drawn with the
  vertex array of the first.
\<close>

theorem stale_vertex_array:
  "gl_setup_factors (sint (width (vga None))) (sint (height (vga None))) 1024 768 = (1, 1) \<and>
   gl_setup_factors (sint (width (hd1080 None))) (sint (height (hd1080 None))) 1024 768 = (1, 3 / 4) \<and>
   verts (snd (Show env_ok 3 100 (hd1080 None) (Reset (snd (Show env_ok 3 100 (vga None) st_init))))) =
     [- 1, - 1, 1, - 1, 1, 1, - 1, 1]"
  by (simp add: Show_def Show_resolve_def makeBuffer_def makeBuffer_first_time_def gl_setup_def
      setup_overlay_def compile_shader_def link_program_def get_colour_space_info_def emit_def
      gl_setup_factors_def Reset_def
      env_ok_def st_init_def vga_def hd1080_def Buffer_default_def
      case_prod_beta Let_def)

subsection \<open>Clearing the overlay\<close>











end
